theory Spec2Isabelle
  imports Complex_Main
begin

section \<open>Run-time values of the event pipeline\<close>

text \<open>
  The values that travel through \<^verbatim>\<open>client-event-manager.js\<close> and the event half of
  \<^verbatim>\<open>propensity-server.js\<close>. Objects live in an explicit store and a value refers to
  one by its address, because \<^verbatim>\<open>handleClientEvent_\<close> writes into an object that the
  caller's event may share. Equality of two \<open>jsval\<close>s is JavaScript's \<^verbatim>\<open>===\<close>: two
  references are equal exactly when they are the same address (NaN is not represented).
\<close>

datatype jsval = JUndefined | JNull | JBool bool | JNum real | JStr string | JRef nat

record jsobj =
  instanceOfEventParams :: bool
  props :: "(string \<times> jsval) list"

type_synonym heap = "jsobj list"

datatype error =
    Error string
  | InvalidEventError string jsval
  | TypeError
  | Thrown jsval

definition ownProps :: "heap \<Rightarrow> nat \<Rightarrow> (string \<times> jsval) list" where
  "ownProps h a = (if a < length h then props (h ! a) else [])"

text \<open>
  \<^verbatim>\<open>v[k]\<close> for a string key: a \<^verbatim>\<open>TypeError\<close> on \<^verbatim>\<open>undefined\<close> and \<^verbatim>\<open>null\<close>, the own
  property of an object (or \<^verbatim>\<open>undefined\<close>), and \<^verbatim>\<open>undefined\<close> on the other primitives.
  Inherited properties are not modelled; none of the keys the source reads is inherited.
\<close>

definition getProperty :: "heap \<Rightarrow> jsval \<Rightarrow> string \<Rightarrow> error + jsval" where
  "getProperty h v k =
     (case v of
        JUndefined \<Rightarrow> Inl TypeError
      | JNull \<Rightarrow> Inl TypeError
      | JRef a \<Rightarrow> Inr (case map_of (ownProps h a) k of None \<Rightarrow> JUndefined | Some x \<Rightarrow> x)
      | _ \<Rightarrow> Inr JUndefined)"

definition andThen :: "error + 'a \<Rightarrow> ('a \<Rightarrow> error + 'b) \<Rightarrow> error + 'b" where
  "andThen r f = (case r of Inl e \<Rightarrow> Inl e | Inr x \<Rightarrow> f x)"

text \<open>\<^verbatim>\<open>v != null\<close>: the loose comparison holds for everything but \<^verbatim>\<open>null\<close> and \<^verbatim>\<open>undefined\<close>.\<close>

definition notNull :: "jsval \<Rightarrow> bool" where
  "notNull v = (v \<noteq> JNull \<and> v \<noteq> JUndefined)"

subsection \<open>The imported modules\<close>

text \<open>
  Modelled from the spec: \<^verbatim>\<open>../utils/types\<close> is not under src/. The spec asks for "a valid
  object" and "a mapping (not a scalar, not an array-like primitive)", for "a boolean", and
  for "a valid member" of an enumeration; an object is any value that is not a primitive.
\<close>

definition isObject :: "jsval \<Rightarrow> bool" where
  "isObject v = (case v of JRef _ \<Rightarrow> True | _ \<Rightarrow> False)"

definition isBoolean :: "jsval \<Rightarrow> bool" where
  "isBoolean v = (case v of JBool _ \<Rightarrow> True | _ \<Rightarrow> False)"

definition isEnumValue :: "(string \<times> jsval) list \<Rightarrow> jsval \<Rightarrow> bool" where
  "isEnumValue enumObj s = (s \<in> set (map snd enumObj))"

text \<open>
  \<^verbatim>\<open>../proto/api_messages\<close>, \<^verbatim>\<open>../api/client-event-manager-api\<close> and
  \<^verbatim>\<open>./event-type-mapping\<close> are not under src/ either. Their enumeration objects and the
  lookup \<^verbatim>\<open>analyticsEventToPublisherEvent\<close> are parameters of the model: an enumeration
  object is the list of its members with their values.
\<close>

record modules =
  AnalyticsEvent :: "(string \<times> jsval) list"
  EventOriginator :: "(string \<times> jsval) list"
  FilterResult :: "(string \<times> jsval) list"
  analyticsEventToPublisherEvent :: "jsval \<Rightarrow> jsval"

definition enumMember :: "(string \<times> jsval) list \<Rightarrow> string \<Rightarrow> jsval" where
  "enumMember enumObj name = (case map_of enumObj name of None \<Rightarrow> JUndefined | Some v \<Rightarrow> v)"

section \<open>client-event-manager.js\<close>

text \<open>
  \<^verbatim>\<open>createEventErrorMessage\<close> builds the text
  \<^verbatim>\<open>'Event has an invalid ' + valueName + '(' + value + ')'\<close>; the error value keeps the
  name and the offending value instead of rendering the value as text.
\<close>

definition createEventErrorMessage :: "string \<Rightarrow> jsval \<Rightarrow> error" where
  "createEventErrorMessage valueName v = InvalidEventError valueName v"

definition validateEvent :: "modules \<Rightarrow> heap \<Rightarrow> jsval \<Rightarrow> error + unit" where
  "validateEvent md h event =
     (if \<not> isObject event then Inl (Error ''Event must be a valid object'')
      else
        andThen (getProperty h event ''eventType'') (\<lambda>eventType.
        if \<not> isEnumValue (AnalyticsEvent md) eventType
        then Inl (createEventErrorMessage ''eventType'' eventType)
        else
          andThen (getProperty h event ''eventOriginator'') (\<lambda>eventOriginator.
          if \<not> isEnumValue (EventOriginator md) eventOriginator
          then Inl (createEventErrorMessage ''eventOriginator'' eventOriginator)
          else
            andThen (getProperty h event ''additionalParameters'') (\<lambda>additionalParameters.
            if \<not> isObject additionalParameters \<and> notNull additionalParameters
            then Inl (createEventErrorMessage ''additionalParameters'' additionalParameters)
            else
              andThen (getProperty h event ''isFromUserAction'') (\<lambda>isFromUserAction.
              if notNull isFromUserAction \<and> \<not> isBoolean isFromUserAction
              then Inl (createEventErrorMessage ''isFromUserAction'' isFromUserAction)
              else Inr ())))))"

text \<open>
  Private names lose their trailing underscore, here and in the sections on
  \<^verbatim>\<open>propensity-server.js\<close> (\<open>listeners\<close> is \<^verbatim>\<open>listeners_\<close>, \<open>handleEvent\<close> is
  \<^verbatim>\<open>handleEvent_\<close>, \<open>getClientId\<close> is \<^verbatim>\<open>getClientId_\<close>): a name may not end in one
  here.

  A filterer and a listener are functions of the embedding: they take the event (and the
  parameters), read and change a world \<open>'w\<close> of their own, and either return a value or
  throw. The registries are not part of \<open>'w\<close>: a consumer that registers another consumer
  while an event is being dispatched is outside the model.
\<close>

datatype completion = Normal jsval | Abrupt error

type_synonym 'w filterer = "jsval \<Rightarrow> 'w \<Rightarrow> completion \<times> 'w"

type_synonym 'w listener = "jsval \<Rightarrow> jsval \<Rightarrow> 'w \<Rightarrow> completion \<times> 'w"

datatype promise = Pending | Resolved | Rejected jsval

record 'w ClientEventManager =
  listeners :: "'w listener list"
  filterers :: "'w filterer list"
  lastAction :: "(jsval \<times> jsval) option"
  isReadyPromise :: promise

definition isPublisherEvent :: "modules \<Rightarrow> heap \<Rightarrow> jsval \<Rightarrow> error + bool" where
  "isPublisherEvent md h event =
     andThen (getProperty h event ''eventOriginator'') (\<lambda>eventOriginator.
       Inr (eventOriginator = enumMember (EventOriginator md) ''PROPENSITY_CLIENT''
          \<or> eventOriginator = enumMember (EventOriginator md) ''PUBLISHER_CLIENT''
          \<or> eventOriginator = enumMember (EventOriginator md) ''AMP_CLIENT''))"

definition constructor :: "promise \<Rightarrow> 'w ClientEventManager" where
  "constructor configuredPromise =
     \<lparr>listeners = [], filterers = [], lastAction = None,
      isReadyPromise = configuredPromise\<rparr>"

text \<open>
  The argument of a registration is a function of the embedding or some other value;
  \<^verbatim>\<open>isFunction\<close> (modelled from the spec: "not callable" is refused) tells them apart.
\<close>

datatype 'f argument = Function 'f | NotFunction jsval

definition isFunction :: "'f argument \<Rightarrow> bool" where
  "isFunction a = (case a of Function _ \<Rightarrow> True | NotFunction _ \<Rightarrow> False)"

definition registerEventListener ::
  "'w ClientEventManager \<Rightarrow> 'w listener argument \<Rightarrow> error + 'w ClientEventManager" where
  "registerEventListener m a =
     (case a of
        NotFunction _ \<Rightarrow> Inl (Error ''Event manager listeners must be a function'')
      | Function l \<Rightarrow> Inr (m\<lparr>listeners := listeners m @ [l]\<rparr>))"

definition registerEventFilterer ::
  "'w ClientEventManager \<Rightarrow> 'w filterer argument \<Rightarrow> error + 'w ClientEventManager" where
  "registerEventFilterer m a =
     (case a of
        NotFunction _ \<Rightarrow> Inl (Error ''Event manager filterers must be a function'')
      | Function f \<Rightarrow> Inr (m\<lparr>filterers := filterers m @ [f]\<rparr>))"

text \<open>
  What one dispatch does is recorded as a list of entries, in the order of execution: the
  call of the filterer or listener at an index of its registry with the way the call
  completed, and each value handed to \<^verbatim>\<open>log\<close> (modelled from the spec: \<^verbatim>\<open>../utils/log\<close>
  is not under src/; a fault "is recorded to a diagnostic sink").
\<close>

datatype entry = FiltererCalled nat completion | ListenerCalled nat completion | Logged error

text \<open>
  The loop over \<^verbatim>\<open>this.filterers\<close>, from the filterer at index \<open>k\<close> on. The first
  component of the result tells whether the loop left \<^verbatim>\<open>handleEvent\<close> by its
  \<^verbatim>\<open>return\<close>.
\<close>

fun runFilterers ::
  "jsval \<Rightarrow> 'w filterer list \<Rightarrow> nat \<Rightarrow> jsval \<Rightarrow> 'w \<Rightarrow> bool \<times> entry list \<times> 'w" where
  "runFilterers cancel [] k event w = (False, [], w)"
| "runFilterers cancel (filterer # rest) k event w =
     (case filterer event w of
        (Normal v, w') \<Rightarrow>
          if v = cancel then (True, [FiltererCalled k (Normal v)], w')
          else (case runFilterers cancel rest (Suc k) event w' of
                  (returned, tr, w'') \<Rightarrow> (returned, FiltererCalled k (Normal v) # tr, w''))
      | (Abrupt e, w') \<Rightarrow>
          (case runFilterers cancel rest (Suc k) event w' of
             (returned, tr, w'') \<Rightarrow>
               (returned, FiltererCalled k (Abrupt e) # Logged e # tr, w'')))"

fun runListeners ::
  "'w listener list \<Rightarrow> nat \<Rightarrow> jsval \<Rightarrow> jsval \<Rightarrow> 'w \<Rightarrow> entry list \<times> 'w" where
  "runListeners [] k event eventParams w = ([], w)"
| "runListeners (listener # rest) k event eventParams w =
     (case listener event eventParams w of
        (Normal v, w') \<Rightarrow>
          (case runListeners rest (Suc k) event eventParams w' of
             (tr, w'') \<Rightarrow> (ListenerCalled k (Normal v) # tr, w''))
      | (Abrupt e, w') \<Rightarrow>
          (case runListeners rest (Suc k) event eventParams w' of
             (tr, w'') \<Rightarrow> (ListenerCalled k (Abrupt e) # Logged e # tr, w'')))"

text \<open>
  The promise that \<^verbatim>\<open>handleEvent\<close> returns: still waiting for the readiness promise,
  rejected with the reason the readiness promise was rejected with, or fulfilled after
  the entries of the dispatch, leaving the consumers' world as given.
\<close>

datatype 'w dispatch = Suspended | Failed jsval | Completed "entry list" 'w

definition handleEvent ::
  "modules \<Rightarrow> 'w ClientEventManager \<Rightarrow> jsval \<Rightarrow> jsval \<Rightarrow> 'w \<Rightarrow> 'w dispatch" where
  "handleEvent md m event eventParams w =
     (case isReadyPromise m of
        Pending \<Rightarrow> Suspended
      | Rejected reason \<Rightarrow> Failed reason
      | Resolved \<Rightarrow>
          (case runFilterers (enumMember (FilterResult md) ''CANCEL_EVENT'') (filterers m) 0 event w of
             (returned, tr, w') \<Rightarrow>
               if returned then Completed tr w'
               else (case runListeners (listeners m) 0 event eventParams w' of
                       (tr', w'') \<Rightarrow> Completed (tr @ tr') w'')))"

text \<open>
  \<^verbatim>\<open>logEvent\<close> validates and then starts \<^verbatim>\<open>handleEvent\<close>, whose promise it stores. The
  promise is kept as the call it stands for; nothing of the dispatch has run when
  \<^verbatim>\<open>logEvent\<close> returns, since \<^verbatim>\<open>handleEvent\<close> first awaits the readiness promise.
\<close>

definition logEvent ::
  "modules \<Rightarrow> heap \<Rightarrow> 'w ClientEventManager \<Rightarrow> jsval \<Rightarrow> jsval \<Rightarrow> error + 'w ClientEventManager" where
  "logEvent md h m event eventParams =
     andThen (validateEvent md h event) (\<lambda>_.
       Inr (m\<lparr>lastAction := Some (event, eventParams)\<rparr>))"

text \<open>
  The manager after a sequence of calls of \<^verbatim>\<open>registerEventListener\<close> and
  \<^verbatim>\<open>registerEventFilterer\<close>; a call that raises leaves the manager as it is.
\<close>

datatype 'w registration =
    ListenerRegistration "'w listener argument"
  | FiltererRegistration "'w filterer argument"

fun registered :: "'w ClientEventManager \<Rightarrow> 'w registration list \<Rightarrow> 'w ClientEventManager" where
  "registered m [] = m"
| "registered m (ListenerRegistration a # rest) =
     (case registerEventListener m a of
        Inl _ \<Rightarrow> registered m rest
      | Inr m' \<Rightarrow> registered m' rest)"
| "registered m (FiltererRegistration a # rest) =
     (case registerEventFilterer m a of
        Inl _ \<Rightarrow> registered m rest
      | Inr m' \<Rightarrow> registered m' rest)"

text \<open>
  One call of \<^verbatim>\<open>logEvent\<close> followed to the end of the dispatch it started: the error the
  call raised, if any, and what became of the dispatch (\<open>None\<close> when none was started).
  \<^verbatim>\<open>handleEvent_\<close> reads \<^verbatim>\<open>this.filterers_\<close> and \<^verbatim>\<open>this.listeners_\<close> only after the
  readiness promise: the dispatch runs on the registries as they are then, after the
  \<open>registrations\<close> made since the call of \<^verbatim>\<open>logEvent\<close>, and in the world \<open>w\<close> of that
  moment.
\<close>

definition logEvent_dispatch ::
  "modules \<Rightarrow> heap \<Rightarrow> 'w ClientEventManager \<Rightarrow> jsval \<Rightarrow> jsval \<Rightarrow> 'w registration list \<Rightarrow> 'w
     \<Rightarrow> error option \<times> 'w dispatch option" where
  "logEvent_dispatch md h m event eventParams registrations w =
     (case logEvent md h m event eventParams of
        Inl e \<Rightarrow> (Some e, None)
      | Inr m' \<Rightarrow>
          (case lastAction m' of
             None \<Rightarrow> (None, None)
           | Some (ev, ps) \<Rightarrow>
               (None, Some (handleEvent md (registered m' registrations) ev ps w))))"

text \<open>The indices of the filterers and of the listeners that a dispatch called, in order.\<close>

fun filterersCalled :: "entry list \<Rightarrow> nat list" where
  "filterersCalled [] = []"
| "filterersCalled (FiltererCalled k c # tr) = k # filterersCalled tr"
| "filterersCalled (x # tr) = filterersCalled tr"

fun listenersCalled :: "entry list \<Rightarrow> nat list" where
  "listenersCalled [] = []"
| "listenersCalled (ListenerCalled k c # tr) = k # listenersCalled tr"
| "listenersCalled (x # tr) = listenersCalled tr"

text \<open>
  The invalid events, in the words of the spec: not an object, an \<open>eventType\<close> that is not a
  member of \<open>AnalyticsEvent\<close>, an \<open>eventOriginator\<close> that is not a member of
  \<open>EventOriginator\<close>, \<open>additionalParameters\<close> present but not a mapping, or
  \<open>isFromUserAction\<close> present but not a boolean.
\<close>

definition fieldOf :: "heap \<Rightarrow> jsval \<Rightarrow> string \<Rightarrow> jsval" where
  "fieldOf h v k = (case getProperty h v k of Inl _ \<Rightarrow> JUndefined | Inr x \<Rightarrow> x)"

definition present :: "jsval \<Rightarrow> bool" where
  "present v = (v \<noteq> JUndefined \<and> v \<noteq> JNull)"

definition invalidEvent :: "modules \<Rightarrow> heap \<Rightarrow> jsval \<Rightarrow> bool" where
  "invalidEvent md h event =
     (\<not> isObject event
      \<or> fieldOf h event ''eventType'' \<notin> snd ` set (AnalyticsEvent md)
      \<or> fieldOf h event ''eventOriginator'' \<notin> snd ` set (EventOriginator md)
      \<or> (present (fieldOf h event ''additionalParameters'')
           \<and> \<not> isObject (fieldOf h event ''additionalParameters''))
      \<or> (present (fieldOf h event ''isFromUserAction'')
           \<and> \<not> isBoolean (fieldOf h event ''isFromUserAction'')))"


text \<open>Whether the dispatch of an event leaves \<^verbatim>\<open>handleEvent_\<close> at the \<^verbatim>\<open>return\<close> of line 144.\<close>

definition cancelled :: "modules \<Rightarrow> 'w ClientEventManager \<Rightarrow> jsval \<Rightarrow> 'w \<Rightarrow> bool" where
  "cancelled md m event w =
     fst (runFilterers (enumMember (FilterResult md) ''CANCEL_EVENT'') (filterers m) 0 event w)"

section \<open>JSON values\<close>

text \<open>
  The scoring response is a freshly parsed JSON value and \<^verbatim>\<open>parsePropensityResponse_\<close>
  builds a fresh result from it: it neither writes into an object nor compares two objects,
  so here an object is the list of its properties and an array the list of its elements.
  \<open>UNDEFINED\<close> is what a missing property reads as, and what the result holds where the
  source copies such a read. Text is a list of characters, one per code unit.
\<close>

datatype json =
    UNDEFINED
  | NULL
  | BOOL bool
  | NUM real
  | TEXT string
  | ARR "json list"
  | OBJ "(string \<times> json) list"

section \<open>propensity-server.js: the event consumer\<close>

text \<open>
  What the JavaScript run time does to values is a parameter of the model where the source
  relies on it: the conversion of a value that is not a string to a string
  (\<^verbatim>\<open>'' + v\<close>, \<^verbatim>\<open>encodeURIComponent(v)\<close>), \<^verbatim>\<open>JSON.stringify\<close> (which reads the store and
  may throw), \<^verbatim>\<open>encodeURIComponent\<close> on a string, and the match of the cookie string
  against \<^verbatim>\<open>'(^|;)\\s*__gads\\s*=\\s*([^;]+)'\<close>: \<open>matchGads\<close> is \<open>None\<close> where \<^verbatim>\<open>match\<close>
  returns \<^verbatim>\<open>null\<close>, and otherwise the last element of the array it returns, which is
  what \<^verbatim>\<open>pop()\<close> takes. \<open>ToNumber\<close> is the conversion to a number of a string, an array
  or an object of a JSON value (\<open>None\<close> is NaN).
\<close>

record runtime =
  ToString :: "heap \<Rightarrow> jsval \<Rightarrow> string"
  JSON_stringify :: "heap \<Rightarrow> jsval \<Rightarrow> error + jsval"
  encodeURIComponent :: "string \<Rightarrow> string"
  matchGads :: "string \<Rightarrow> string option"
  ToNumber :: "json \<Rightarrow> real option"

definition toText :: "runtime \<Rightarrow> heap \<Rightarrow> jsval \<Rightarrow> string" where
  "toText rt h v = (case v of JStr s \<Rightarrow> s | _ \<Rightarrow> ToString rt h v)"

definition truthy :: "jsval \<Rightarrow> bool" where
  "truthy v =
     (case v of
        JUndefined \<Rightarrow> False
      | JNull \<Rightarrow> False
      | JBool b \<Rightarrow> b
      | JNum r \<Rightarrow> r \<noteq> 0
      | JStr s \<Rightarrow> s \<noteq> []
      | JRef _ \<Rightarrow> True)"

text \<open>\<^verbatim>\<open>String(n)\<close> for a natural number: its decimal digits.\<close>

fun decimal :: "nat \<Rightarrow> string" where
  "decimal n =
     (if n < 10 then [''0123456789'' ! n]
      else decimal (n div 10) @ [''0123456789'' ! (n mod 10)])"

text \<open>
  Modelled from the spec: \<^verbatim>\<open>../utils/url\<close> and \<^verbatim>\<open>./services\<close> are not under src/. "Every
  outbound URL is built by appending, in a fixed augmentation order" its parameters: a URL
  is the text it starts from and the parameters appended to it, in order; \<^verbatim>\<open>adsUrl\<close>
  gives the URL of a path under the "fixed ad-serving base path".
\<close>

record url =
  base :: string
  query :: "(string \<times> string) list"

definition adsUrl :: "string \<Rightarrow> url" where
  "adsUrl path = \<lparr>base = path, query = []\<rparr>"

definition addQueryParam :: "url \<Rightarrow> string \<Rightarrow> string \<Rightarrow> url" where
  "addQueryParam u param v = u\<lparr>query := query u @ [(param, v)]\<rparr>"

text \<open>\<^verbatim>\<open>url + text\<close>, on a URL to which no parameter has been appended yet.\<close>

definition plusText :: "url \<Rightarrow> string \<Rightarrow> url" where
  "plusText u s = u\<lparr>base := base u @ s\<rparr>"

record request =
  requestUrl :: url
  requestMethod :: string
  credentials :: string

text \<open>
  The state of a \<^verbatim>\<open>PropensityServer\<close> and of what it reaches through \<^verbatim>\<open>win_\<close>,
  \<^verbatim>\<open>deps_\<close> and \<^verbatim>\<open>fetcher_\<close>: the cookie string and the host name of the document, the
  live \<^verbatim>\<open>enablePropensity\<close> flag of the configuration, the requests handed to
  \<^verbatim>\<open>fetch\<close> so far, and the store of objects. \<open>clientId = None\<close> is \<^verbatim>\<open>null\<close>.
\<close>

record PropensityServer =
  publicationId :: string
  clientId :: "string option"
  version :: nat
  documentCookie :: string
  locationHostname :: string
  enablePropensity :: bool
  fetched :: "request list"
  store :: heap

definition getDocumentCookie :: "PropensityServer \<Rightarrow> string" where
  "getDocumentCookie s = documentCookie s"

text \<open>The truth value of \<^verbatim>\<open>this.clientId_\<close>: \<^verbatim>\<open>null\<close> and the empty string are false.\<close>

definition truthyId :: "string option \<Rightarrow> bool" where
  "truthyId c = (case c of None \<Rightarrow> False | Some s \<Rightarrow> s \<noteq> [])"

definition getClientId :: "runtime \<Rightarrow> PropensityServer \<Rightarrow> string option \<times> PropensityServer" where
  "getClientId rt s =
     (let s' =
        (if \<not> truthyId (clientId s)
         then
           (let gadsmatch = matchGads rt (getDocumentCookie s)
            in s\<lparr>clientId :=
                 (case gadsmatch of None \<Rightarrow> None | Some g \<Rightarrow> Some (encodeURIComponent rt g))\<rparr>)
         else s)
      in (clientId s', s'))"

definition propensityUrl :: "runtime \<Rightarrow> PropensityServer \<Rightarrow> url \<Rightarrow> url \<times> PropensityServer" where
  "propensityUrl rt s u =
     (let u1 = addQueryParam u ''u_tz'' ''240'';
          u2 = addQueryParam u1 ''v'' (decimal (version s))
      in case getClientId rt s of
           (cid, s') \<Rightarrow>
             (let u3 = (case cid of
                          None \<Rightarrow> u2
                        | Some c \<Rightarrow> if c \<noteq> [] then addQueryParam u2 ''cookie'' c else u2)
              in (addQueryParam u3 ''cdm'' (locationHostname s'), s')))"

text \<open>\<^verbatim>\<open>this.fetcher_.fetch(url, init)\<close> with the \<^verbatim>\<open>init\<close> of the three callers.\<close>

definition requestOf :: "url \<Rightarrow> request" where
  "requestOf u = \<lparr>requestUrl = u, requestMethod = ''GET'', credentials = ''include''\<rparr>"

definition fetch :: "PropensityServer \<Rightarrow> url \<Rightarrow> PropensityServer" where
  "fetch s u = s\<lparr>fetched := fetched s @ [requestOf u]\<rparr>"

definition sendSubscriptionState ::
  "runtime \<Rightarrow> PropensityServer \<Rightarrow> jsval \<Rightarrow> jsval \<Rightarrow> PropensityServer" where
  "sendSubscriptionState rt s state productsOrSkus =
     (let u = adsUrl ''/subopt/data'';
          u1 = addQueryParam u ''states'' (publicationId s @ '':'' @ toText rt (store s) state);
          u2 = (if truthy productsOrSkus
                then addQueryParam u1 ''extrainfo'' (toText rt (store s) productsOrSkus)
                else u1)
      in case propensityUrl rt s u2 of (u3, s') \<Rightarrow> fetch s' u3)"

definition sendEvent ::
  "runtime \<Rightarrow> PropensityServer \<Rightarrow> jsval \<Rightarrow> jsval \<Rightarrow> PropensityServer" where
  "sendEvent rt s event context' =
     (let u = adsUrl ''/subopt/data'';
          u1 = addQueryParam u ''events'' (publicationId s @ '':'' @ toText rt (store s) event);
          u2 = (if truthy context'
                then addQueryParam u1 ''extrainfo'' (toText rt (store s) context')
                else u1)
      in case propensityUrl rt s u2 of (u3, s') \<Rightarrow> fetch s' u3)"

text \<open>
  A step of \<^verbatim>\<open>handleClientEvent_\<close> that may throw: the exception ends the call, with the
  state as it is at that point.
\<close>

definition orThrow ::
  "error + 'a \<Rightarrow> PropensityServer \<Rightarrow> ('a \<Rightarrow> completion \<times> PropensityServer)
     \<Rightarrow> completion \<times> PropensityServer" where
  "orThrow r s f = (case r of Inl e \<Rightarrow> (Abrupt e, s) | Inr x \<Rightarrow> f x)"

definition instanceofEventParams :: "heap \<Rightarrow> jsval \<Rightarrow> bool" where
  "instanceofEventParams h v =
     (case v of JRef a \<Rightarrow> a < length h \<and> instanceOfEventParams (h ! a) | _ \<Rightarrow> False)"

text \<open>\<^verbatim>\<open>o[k] = v\<close> on the properties of an object: the property is replaced, or added last.\<close>

fun assign :: "string \<Rightarrow> jsval \<Rightarrow> (string \<times> jsval) list \<Rightarrow> (string \<times> jsval) list" where
  "assign k v [] = [(k, v)]"
| "assign k v (p # ps) = (if fst p = k then (k, v) # ps else p # assign k v ps)"

definition setProperty :: "heap \<Rightarrow> jsval \<Rightarrow> string \<Rightarrow> jsval \<Rightarrow> heap" where
  "setProperty h target k v =
     (case target of
        JRef a \<Rightarrow> (if a < length h then h[a := (h ! a)\<lparr>props := assign k v (props (h ! a))\<rparr>] else h)
      | _ \<Rightarrow> h)"

text \<open>The object literal \<^verbatim>\<open>{}\<close>: a new object at the next free address.\<close>

definition newObject :: "heap \<Rightarrow> jsval \<times> heap" where
  "newObject h = (JRef (length h), h @ [\<lparr>instanceOfEventParams = False, props = []\<rparr>])"

text \<open>
  Lines 167 to 177 of \<^verbatim>\<open>handleClientEvent_\<close>: the value of the local variable
  \<^verbatim>\<open>additionalParameters\<close> that is handed to \<^verbatim>\<open>JSON.stringify\<close>, and the store after the
  assignment of \<^verbatim>\<open>is_active\<close>.
\<close>

definition prepareParameters :: "heap \<Rightarrow> jsval \<Rightarrow> error + (jsval \<times> heap)" where
  "prepareParameters h event =
     andThen (getProperty h event ''additionalParameters'') (\<lambda>additionalParameters.
     let additionalParameters1 =
           (if instanceofEventParams h additionalParameters then JUndefined
            else additionalParameters)
     in andThen (getProperty h event ''isFromUserAction'') (\<lambda>isFromUserAction.
        if isBoolean isFromUserAction then
          (case (if \<not> isObject additionalParameters1 then newObject h
                 else (additionalParameters1, h)) of
             (additionalParameters2, h') \<Rightarrow>
               andThen (getProperty h' event ''isFromUserAction'') (\<lambda>isFromUserAction'.
                 Inr (additionalParameters2,
                      setProperty h' additionalParameters2 ''is_active'' isFromUserAction')))
        else Inr (additionalParameters1, h)))"

text \<open>Lines 163 to 181: the report of a generic event.\<close>

definition forwardEvent ::
  "runtime \<Rightarrow> modules \<Rightarrow> PropensityServer \<Rightarrow> jsval \<Rightarrow> completion \<times> PropensityServer" where
  "forwardEvent rt md s event =
     orThrow (getProperty (store s) event ''eventType'') s (\<lambda>eventType.
     let propEvent = analyticsEventToPublisherEvent md eventType
     in if \<not> notNull propEvent then (Normal JUndefined, s)
        else
          orThrow (prepareParameters (store s) event) s (\<lambda>(additionalParameters, h').
          let s' = s\<lparr>store := h'\<rparr>
          in orThrow (JSON_stringify rt h' additionalParameters) s' (\<lambda>context'.
               (Normal JUndefined, sendEvent rt s' propEvent context'))))"

text \<open>Lines 156 to 181: what is done with an event that passed the two guards.\<close>

definition processEvent ::
  "runtime \<Rightarrow> modules \<Rightarrow> PropensityServer \<Rightarrow> jsval \<Rightarrow> completion \<times> PropensityServer" where
  "processEvent rt md s event =
     orThrow (getProperty (store s) event ''eventType'') s (\<lambda>eventType.
     if eventType = enumMember (AnalyticsEvent md) ''EVENT_SUBSCRIPTION_STATE'' then
       orThrow (getProperty (store s) event ''additionalParameters'') s (\<lambda>additionalParameters.
       orThrow (getProperty (store s) additionalParameters ''state'') s (\<lambda>state.
       orThrow (getProperty (store s) event ''additionalParameters'') s (\<lambda>additionalParameters'.
       orThrow (getProperty (store s) additionalParameters' ''productsOrSkus'') s
         (\<lambda>productsOrSkus.
           (Normal JUndefined, sendSubscriptionState rt s state productsOrSkus)))))
     else forwardEvent rt md s event)"

definition handleClientEvent ::
  "runtime \<Rightarrow> modules \<Rightarrow> PropensityServer \<Rightarrow> jsval \<Rightarrow> completion \<times> PropensityServer" where
  "handleClientEvent rt md s event =
     orThrow (getProperty (store s) event ''eventOriginator'') s (\<lambda>eventOriginator.
     if eventOriginator = enumMember (EventOriginator md) ''SHOWCASE_CLIENT''
     then (Normal JUndefined, s)
     else if \<not> enablePropensity s
             \<and> eventOriginator \<noteq> enumMember (EventOriginator md) ''PROPENSITY_CLIENT''
     then (Normal JUndefined, s)
     else processEvent rt md s event)"

text \<open>
  The two kinds of report, told apart by the parameter that carries the report:
  \<^verbatim>\<open>states\<close> for a subscription state, \<^verbatim>\<open>events\<close> for a generic event.
\<close>

definition isSubscriptionStateReport :: "request \<Rightarrow> bool" where
  "isSubscriptionStateReport r = (''states'' \<in> fst ` set (query (requestUrl r)))"

definition isEventReport :: "request \<Rightarrow> bool" where
  "isEventReport r = (''events'' \<in> fst ` set (query (requestUrl r)))"

text \<open>The listener that the constructor registers: \<^verbatim>\<open>this.handleClientEvent_.bind(this)\<close>.\<close>

definition propensityListener :: "runtime \<Rightarrow> modules \<Rightarrow> PropensityServer listener" where
  "propensityListener rt md = (\<lambda>event eventParams s. handleClientEvent rt md s event)"

text \<open>
  The constructor: the new server, with no identifier cached, and the event manager of
  \<^verbatim>\<open>deps\<close> after the registration of the listener. \<open>ambient\<close> gives what the server reaches
  through \<^verbatim>\<open>win\<close>, \<^verbatim>\<open>deps\<close> and \<^verbatim>\<open>fetcher\<close>; its own three fields are set here.
\<close>

definition newPropensityServer ::
  "runtime \<Rightarrow> modules \<Rightarrow> string \<Rightarrow> PropensityServer \<Rightarrow> PropensityServer ClientEventManager
     \<Rightarrow> PropensityServer \<times> (error + PropensityServer ClientEventManager)" where
  "newPropensityServer rt md pageConfigPublicationId ambient eventManager =
     (ambient\<lparr>publicationId := pageConfigPublicationId, clientId := None, version := 1\<rparr>,
      registerEventListener eventManager (Function (propensityListener rt md)))"

section \<open>propensity-server.js: the score query\<close>

definition truthyJson :: "json \<Rightarrow> bool" where
  "truthyJson v =
     (case v of
        UNDEFINED \<Rightarrow> False
      | NULL \<Rightarrow> False
      | BOOL b \<Rightarrow> b
      | NUM r \<Rightarrow> r \<noteq> 0
      | TEXT s \<Rightarrow> s \<noteq> []
      | ARR _ \<Rightarrow> True
      | OBJ _ \<Rightarrow> True)"

text \<open>
  The index that a property name stands for, if it is the decimal text of a number without
  a sign or a leading zero.
\<close>

definition indexOfName :: "string \<Rightarrow> nat option" where
  "indexOfName k =
     (if k \<noteq> [] \<and> list_all (\<lambda>c. c \<in> set ''0123456789'') k \<and> (hd k \<noteq> CHR ''0'' \<or> length k = 1)
      then Some (foldl (\<lambda>n c. 10 * n + (of_char c - 48)) 0 k)
      else None)"

text \<open>
  \<^verbatim>\<open>v[k]\<close> for a property name: a \<^verbatim>\<open>TypeError\<close> on \<^verbatim>\<open>undefined\<close> and \<^verbatim>\<open>null\<close>; the
  property of an object; the length or an element of an array or of a text; and
  \<^verbatim>\<open>undefined\<close> otherwise (inherited properties are not modelled; none of the names the
  source reads is inherited).
\<close>

definition getMember :: "json \<Rightarrow> string \<Rightarrow> error + json" where
  "getMember v k =
     (case v of
        UNDEFINED \<Rightarrow> Inl TypeError
      | NULL \<Rightarrow> Inl TypeError
      | OBJ ps \<Rightarrow> Inr (case map_of ps k of None \<Rightarrow> UNDEFINED | Some x \<Rightarrow> x)
      | ARR xs \<Rightarrow>
          Inr (if k = ''length'' then NUM (real (length xs))
               else case indexOfName k of
                      None \<Rightarrow> UNDEFINED
                    | Some i \<Rightarrow> if i < length xs then xs ! i else UNDEFINED)
      | TEXT s \<Rightarrow>
          Inr (if k = ''length'' then NUM (real (length s))
               else case indexOfName k of
                      None \<Rightarrow> UNDEFINED
                    | Some i \<Rightarrow> if i < length s then TEXT [s ! i] else UNDEFINED)
      | _ \<Rightarrow> Inr UNDEFINED)"

text \<open>\<^verbatim>\<open>v[i]\<close> for a number \<open>i\<close> that is a natural number.\<close>

definition getElement :: "json \<Rightarrow> nat \<Rightarrow> error + json" where
  "getElement v i =
     (case v of
        UNDEFINED \<Rightarrow> Inl TypeError
      | NULL \<Rightarrow> Inl TypeError
      | OBJ ps \<Rightarrow> Inr (case map_of ps (decimal i) of None \<Rightarrow> UNDEFINED | Some x \<Rightarrow> x)
      | ARR xs \<Rightarrow> Inr (if i < length xs then xs ! i else UNDEFINED)
      | TEXT s \<Rightarrow> Inr (if i < length s then TEXT [s ! i] else UNDEFINED)
      | _ \<Rightarrow> Inr UNDEFINED)"

definition toNumber :: "runtime \<Rightarrow> json \<Rightarrow> real option" where
  "toNumber rt v =
     (case v of
        UNDEFINED \<Rightarrow> None
      | NULL \<Rightarrow> Some 0
      | BOOL b \<Rightarrow> Some (if b then 1 else 0)
      | NUM r \<Rightarrow> Some r
      | _ \<Rightarrow> ToNumber rt v)"

text \<open>\<^verbatim>\<open>i < v\<close> for a natural number \<open>i\<close>, and \<^verbatim>\<open>v == r\<close> for a number \<open>r\<close>.\<close>

definition lessThan :: "runtime \<Rightarrow> nat \<Rightarrow> json \<Rightarrow> bool" where
  "lessThan rt i v = (case toNumber rt v of None \<Rightarrow> False | Some r \<Rightarrow> real i < r)"

definition looseEquals :: "runtime \<Rightarrow> json \<Rightarrow> real \<Rightarrow> bool" where
  "looseEquals rt v r =
     (case v of
        UNDEFINED \<Rightarrow> False
      | NULL \<Rightarrow> False
      | _ \<Rightarrow> toNumber rt v = Some r)"

text \<open>The body of the loop of \<^verbatim>\<open>parsePropensityResponse_\<close>, up to the \<^verbatim>\<open>push\<close>.\<close>

definition scoreDetailOf :: "runtime \<Rightarrow> json \<Rightarrow> error + json" where
  "scoreDetailOf rt result =
     andThen (getMember result ''score'') (\<lambda>score.
     let scoreStatus = truthyJson score
     in if scoreStatus then
          andThen (getMember result ''score'') (\<lambda>score'.
          andThen (getMember result ''score_type'') (\<lambda>score_type.
          let v = OBJ [(''value'', score'), (''bucketed'', BOOL (looseEquals rt score_type 2))]
          in andThen (getMember result ''product'') (\<lambda>product.
               Inr (OBJ [(''product'', product), (''score'', v)]))))
        else
          andThen (getMember result ''product'') (\<lambda>product.
          andThen (getMember result ''error_message'') (\<lambda>error_message.
            Inr (OBJ [(''product'', product), (''error'', error_message)]))))"

text \<open>
  The number of rounds after which \<^verbatim>\<open>i < scores.length\<close> is false at the latest.
\<close>

definition rounds :: "runtime \<Rightarrow> json \<Rightarrow> nat" where
  "rounds rt scores =
     (case getMember scores ''length'' of
        Inl _ \<Rightarrow> 0
      | Inr len \<Rightarrow> (case toNumber rt len of None \<Rightarrow> 0 | Some r \<Rightarrow> nat \<lceil>r\<rceil>))"

text \<open>
  The loop \<^verbatim>\<open>for (let i = 0; i < scores.length; i++)\<close>, from the index \<open>i\<close> and the
  \<open>scoreDetails\<close> collected so far.
\<close>

function scoreLoop :: "runtime \<Rightarrow> json \<Rightarrow> nat \<Rightarrow> json list \<Rightarrow> error + json list" where
  "scoreLoop rt scores i scoreDetails =
     (case getMember scores ''length'' of
        Inl e \<Rightarrow> Inl e
      | Inr len \<Rightarrow>
          if lessThan rt i len then
            (case getElement scores i of
               Inl e \<Rightarrow> Inl e
             | Inr result \<Rightarrow>
                 (case scoreDetailOf rt result of
                    Inl e \<Rightarrow> Inl e
                  | Inr scoreDetail \<Rightarrow>
                      scoreLoop rt scores (Suc i) (scoreDetails @ [scoreDetail])))
          else Inr scoreDetails)"
  by pat_completeness auto
termination
proof (relation "measure (\<lambda>(rt, scores, i, scoreDetails). rounds rt scores - i)")
  show "wf (measure (\<lambda>(rt, scores, i, scoreDetails). rounds rt scores - i))" by simp
next
  fix rt :: runtime and scores :: json and i :: nat and scoreDetails :: "json list"
    and len result scoreDetail :: json
  assume len: "getMember scores ''length'' = Inr len" and lt: "lessThan rt i len"
  from lt obtain r where r: "toNumber rt len = Some r" "real i < r"
    by (auto simp: lessThan_def split: option.splits)
  have "r \<le> real_of_int \<lceil>r\<rceil>" by (rule le_of_int_ceiling)
  with r(2) have "int i < \<lceil>r\<rceil>" by linarith
  then have "i < nat \<lceil>r\<rceil>" by linarith
  with len r(1) have "i < rounds rt scores" by (simp add: rounds_def)
  then show "((rt, scores, Suc i, scoreDetails @ [scoreDetail]), (rt, scores, i, scoreDetails))
      \<in> measure (\<lambda>(rt, scores, i, scoreDetails). rounds rt scores - i)"
    by simp
qed

definition parsePropensityResponse :: "runtime \<Rightarrow> json \<Rightarrow> error + json" where
  "parsePropensityResponse rt response =
     andThen (getMember response ''header'') (\<lambda>header.
     if \<not> truthyJson header then
       Inr (OBJ [(''header'', OBJ [(''ok'', BOOL False)]),
                 (''body'', OBJ [(''error'', TEXT ''No valid response'')])])
     else
       andThen (getMember response ''header'') (\<lambda>status.
       andThen (getMember status ''ok'') (\<lambda>ok.
       if truthyJson ok then
         andThen (getMember response ''scores'') (\<lambda>scores.
         andThen (scoreLoop rt scores 0 []) (\<lambda>scoreDetails.
           Inr (if truthyJson (ARR scoreDetails)
                then OBJ [(''header'', OBJ [(''ok'', BOOL True)]),
                          (''body'', OBJ [(''scores'', ARR scoreDetails)])]
                else OBJ [])))
       else
         andThen (getMember response ''error'') (\<lambda>err.
           Inr (OBJ [(''header'', OBJ [(''ok'', BOOL False)]),
                     (''body'', OBJ [(''error'', err)])])))))"

text \<open>
  What the fetcher makes of a request: the promise of \<^verbatim>\<open>fetch\<close> is rejected, the promise
  of \<^verbatim>\<open>response.json()\<close> is rejected, or the body is read as a JSON value.
\<close>

datatype fetchOutcome = FetchRejected error | BodyRejected error | Body json

text \<open>
  \<^verbatim>\<open>getPropensity\<close>: the settled promise (\<open>Inl\<close> is a rejection) and the state after the
  request.
\<close>

definition getPropensity ::
  "runtime \<Rightarrow> PropensityServer \<Rightarrow> string \<Rightarrow> string \<Rightarrow> (request \<Rightarrow> fetchOutcome)
     \<Rightarrow> (error + json) \<times> PropensityServer" where
  "getPropensity rt s referrer type' fetcher =
     (let u = plusText (plusText (plusText (plusText (plusText
                (adsUrl ''/subopt/pts?products='') (publicationId s)) ''&type='') type')
                ''&ref='') referrer
      in case propensityUrl rt s u of
           (u', s') \<Rightarrow>
             (let s'' = fetch s' u'
              in case fetcher (requestOf u') of
                   FetchRejected e \<Rightarrow> (Inl e, s'')
                 | BodyRejected e \<Rightarrow> (Inl e, s'')
                 | Body responseJson \<Rightarrow> (parsePropensityResponse rt responseJson, s'')))"

text \<open>
  The score detail of an entry of the response, in the words of the spec: an entry with a
  truthy \<open>score\<close> becomes \<open>{product, score: {value, bucketed}}\<close> with \<open>bucketed\<close> true iff
  \<open>score_type == 2\<close>, any other entry becomes \<open>{product, error: error_message}\<close>.
  \<open>equalsTwo\<close> says what \<open>score_type == 2\<close> is, value by value, without reference to the
  comparison of the parser: a number is equal to 2 when it is the number 2; \<^verbatim>\<open>undefined\<close>
  (no \<open>score_type\<close>), \<^verbatim>\<open>null\<close>, \<^verbatim>\<open>true\<close> and \<^verbatim>\<open>false\<close> are not; a text, an array or an
  object is when the run time converts it to the number 2.
\<close>

definition memberOf :: "json \<Rightarrow> string \<Rightarrow> json" where
  "memberOf v k = (case getMember v k of Inl _ \<Rightarrow> UNDEFINED | Inr x \<Rightarrow> x)"

definition equalsTwo :: "runtime \<Rightarrow> json \<Rightarrow> bool" where
  "equalsTwo rt score_type =
     (case score_type of
        NUM r \<Rightarrow> r = 2
      | UNDEFINED \<Rightarrow> False
      | NULL \<Rightarrow> False
      | BOOL b \<Rightarrow> False
      | TEXT t \<Rightarrow> ToNumber rt (TEXT t) = Some 2
      | ARR xs \<Rightarrow> ToNumber rt (ARR xs) = Some 2
      | OBJ ps \<Rightarrow> ToNumber rt (OBJ ps) = Some 2)"

definition scoreDetail :: "runtime \<Rightarrow> json \<Rightarrow> json" where
  "scoreDetail rt entry =
     (if truthyJson (memberOf entry ''score'')
      then OBJ [(''product'', memberOf entry ''product''),
                (''score'', OBJ [(''value'', memberOf entry ''score''),
                                 (''bucketed'', BOOL (equalsTwo rt (memberOf entry ''score_type'')))])]
      else OBJ [(''product'', memberOf entry ''product''),
                (''error'', memberOf entry ''error_message'')])"

section \<open>Example values\<close>

text \<open>
  Concrete modules; a store with a valid event at address 0 (its parameters at address 1),
  an invalid one at address 2, subscription-state events at 3 (without parameters) and 4
  (its parameters at 5), an event of the showcase client at 6 and an event at 7 whose
  parameters, at 8, are an \<^verbatim>\<open>EventParams\<close> instance; and two managers over a world that is
  a counter; a run time whose \<open>matchGads\<close> finds the identifier \<open>abc\<close> in the cookie string
  \<open>__gads=abc\<close> and nothing in any other; a server without a cached identifier; and the
  scoring response of the spec's example, followed by three more entries: a score of type 1,
  a score without a type, and a score of 0.
\<close>

definition exampleModules :: modules where
  "exampleModules =
     \<lparr>AnalyticsEvent =
        [(''UNKNOWN'', JNum 0), (''IMPRESSION_PAYWALL'', JNum 1),
         (''EVENT_SUBSCRIPTION_STATE'', JNum 4000)],
      EventOriginator =
        [(''UNKNOWN_CLIENT'', JNum 0), (''SWG_CLIENT'', JNum 1), (''AMP_CLIENT'', JNum 2),
         (''PROPENSITY_CLIENT'', JNum 3), (''SWG_SERVER'', JNum 4),
         (''PUBLISHER_CLIENT'', JNum 5), (''SHOWCASE_CLIENT'', JNum 6)],
      FilterResult = [(''PROCEED_WITH_EVENT'', JNum 0), (''CANCEL_EVENT'', JNum 1)],
      analyticsEventToPublisherEvent =
        (\<lambda>v. if v = JNum 1 then JStr ''paywall'' else JNull)\<rparr>"

definition exampleHeap :: heap where
  "exampleHeap =
     [\<lparr>instanceOfEventParams = False,
       props = [(''eventType'', JNum 1), (''eventOriginator'', JNum 1),
                (''additionalParameters'', JRef 1), (''isFromUserAction'', JBool True)]\<rparr>,
      \<lparr>instanceOfEventParams = False, props = [(''k'', JStr ''v'')]\<rparr>,
      \<lparr>instanceOfEventParams = False,
       props = [(''eventType'', JNum 77), (''eventOriginator'', JNum 1)]\<rparr>,
      \<lparr>instanceOfEventParams = False,
       props = [(''eventType'', JNum 4000), (''eventOriginator'', JNum 3)]\<rparr>,
      \<lparr>instanceOfEventParams = False,
       props = [(''eventType'', JNum 4000), (''eventOriginator'', JNum 3),
                (''additionalParameters'', JRef 5)]\<rparr>,
      \<lparr>instanceOfEventParams = False,
       props = [(''state'', JStr ''subscriber''), (''productsOrSkus'', JStr ''basic'')]\<rparr>,
      \<lparr>instanceOfEventParams = False,
       props = [(''eventType'', JNum 1), (''eventOriginator'', JNum 6)]\<rparr>,
      \<lparr>instanceOfEventParams = False,
       props = [(''eventType'', JNum 1), (''eventOriginator'', JNum 3),
                (''additionalParameters'', JRef 8)]\<rparr>,
      \<lparr>instanceOfEventParams = True, props = [(''smartboxMessage'', JStr ''m'')]\<rparr>]"

definition exampleManager :: "nat ClientEventManager" where
  "exampleManager =
     \<lparr>listeners = [\<lambda>event eventParams w. (Normal JUndefined, w + 10)],
      filterers =
        [\<lambda>event w. (Abrupt (Thrown (JStr ''boom'')), w + 1),
         \<lambda>event w. (Normal (JNum 1), w + 1),
         \<lambda>event w. (Normal (JNum 0), w + 1)],
      lastAction = None,
      isReadyPromise = Resolved\<rparr>"

definition exampleManager2 :: "nat ClientEventManager" where
  "exampleManager2 =
     \<lparr>listeners =
        [\<lambda>event eventParams w. (Abrupt TypeError, w + 10),
         \<lambda>event eventParams w. (Normal JUndefined, w + 10)],
      filterers =
        [\<lambda>event w. (Abrupt (Thrown (JStr ''boom'')), w + 1),
         \<lambda>event w. (Normal JUndefined, w + 1)],
      lastAction = None,
      isReadyPromise = Resolved\<rparr>"

definition exampleTrace :: "entry list" where
  "exampleTrace =
     [FiltererCalled 0 (Abrupt (Thrown (JStr ''boom''))), Logged (Thrown (JStr ''boom'')),
      FiltererCalled 1 (Normal (JNum 1))]"

definition exampleTrace2 :: "entry list" where
  "exampleTrace2 =
     [FiltererCalled 0 (Abrupt (Thrown (JStr ''boom''))), Logged (Thrown (JStr ''boom'')),
      FiltererCalled 1 (Normal JUndefined),
      ListenerCalled 0 (Abrupt TypeError), Logged TypeError,
      ListenerCalled 1 (Normal JUndefined)]"

definition exampleRuntime :: runtime where
  "exampleRuntime =
     \<lparr>ToString = (\<lambda>h v. ''[value]''),
      JSON_stringify = (\<lambda>h v. if v = JUndefined then Inr JUndefined else Inr (JStr ''{}'')),
      encodeURIComponent = (\<lambda>s. s),
      matchGads = (\<lambda>c. if c = ''__gads=abc'' then Some ''abc'' else None),
      ToNumber = (\<lambda>v. None)\<rparr>"

definition exampleServer :: PropensityServer where
  "exampleServer =
     \<lparr>publicationId = ''pub1'', clientId = None, version = 1, documentCookie = [],
      locationHostname = ''example.com'', enablePropensity = True, fetched = [],
      store = exampleHeap\<rparr>"


section \<open>Properties of the event manager\<close>

lemma getProperty_ref:
  "getProperty h (JRef a) k = Inr (fieldOf h (JRef a) k)"
  by (simp add: getProperty_def fieldOf_def)

lemma validateEvent_Inr_iff:
  "(validateEvent md h event = Inr ()) = (\<not> invalidEvent md h event)"
proof (cases event)
  case (JRef a)
  then show ?thesis
    by (auto simp: validateEvent_def invalidEvent_def andThen_def getProperty_ref isObject_def
        isEnumValue_def notNull_def present_def createEventErrorMessage_def)
qed (simp_all add: validateEvent_def invalidEvent_def isObject_def)

lemma validateEvent_cases:
  "validateEvent md h event = Inr () \<or> (\<exists>e. validateEvent md h event = Inl e)"
  by (cases "validateEvent md h event") auto

lemma runFilterers_Cons_cases:
  assumes "runFilterers c (f # fs) k ev w = (b, tr, w')"
  obtains
    (Cancel) "f ev w = (Normal c, w')" "b" "tr = [FiltererCalled k (Normal c)]"
  | (Proceed) v w1 tr2 where "f ev w = (Normal v, w1)" "v \<noteq> c"
      "runFilterers c fs (Suc k) ev w1 = (b, tr2, w')" "tr = FiltererCalled k (Normal v) # tr2"
  | (Throw) e w1 tr2 where "f ev w = (Abrupt e, w1)"
      "runFilterers c fs (Suc k) ev w1 = (b, tr2, w')"
      "tr = FiltererCalled k (Abrupt e) # Logged e # tr2"
proof -
  obtain r w1 where f: "f ev w = (r, w1)" by (cases "f ev w")
  obtain b2 tr2 w2 where rec: "runFilterers c fs (Suc k) ev w1 = (b2, tr2, w2)"
    by (cases "runFilterers c fs (Suc k) ev w1")
  show thesis
  proof (cases r)
    case (Normal v)
    show thesis
    proof (cases "v = c")
      case True
      with assms f Normal show thesis by (intro Cancel) simp_all
    next
      case False
      with assms f rec Normal show thesis by (intro Proceed[of v w1 tr2]) simp_all
    qed
  next
    case (Abrupt e)
    with assms f rec show thesis by (intro Throw[of e w1 tr2]) simp_all
  qed
qed

lemma runFilterers_no_listener:
  "runFilterers c fs k ev w = (b, tr, w') \<Longrightarrow> listenersCalled tr = []"
proof (induction fs arbitrary: k w tr)
  case Nil
  then show ?case by simp
next
  case (Cons f fs)
  from Cons.prems show ?case
    by (cases rule: runFilterers_Cons_cases) (simp_all add: Cons.IH)
qed

lemma runFilterers_lower:
  "runFilterers c fs k ev w = (b, tr, w') \<Longrightarrow> FiltererCalled j r \<in> set tr \<Longrightarrow> k \<le> j"
proof (induction fs arbitrary: k w tr)
  case Nil
  then show ?case by simp
next
  case (Cons f fs)
  from Cons.prems(1) show ?case
  proof (cases rule: runFilterers_Cons_cases)
    case Cancel
    with Cons.prems(2) show ?thesis by simp
  next
    case (Proceed v w1 tr2)
    with Cons.prems(2) Cons.IH[OF Proceed(3)] show ?thesis by auto
  next
    case (Throw e w1 tr2)
    with Cons.prems(2) Cons.IH[OF Throw(2)] show ?thesis by auto
  qed
qed

lemma runFilterers_returned_iff:
  "runFilterers c fs k ev w = (b, tr, w') \<Longrightarrow> b = (\<exists>j. FiltererCalled j (Normal c) \<in> set tr)"
proof (induction fs arbitrary: k w tr)
  case Nil
  then show ?case by auto
next
  case (Cons f fs)
  from Cons.prems(1) show ?case
  proof (cases rule: runFilterers_Cons_cases)
    case Cancel
    then show ?thesis by simp
  next
    case (Proceed v w1 tr2)
    with Cons.IH[OF Proceed(3)] show ?thesis by auto
  next
    case (Throw e w1 tr2)
    with Cons.IH[OF Throw(2)] show ?thesis by auto
  qed
qed

lemma runFilterers_all_called:
  "runFilterers c fs k ev w = (False, tr, w') \<Longrightarrow> filterersCalled tr = [k..<k + length fs]"
proof (induction fs arbitrary: k w tr)
  case Nil
  then show ?case by simp
next
  case (Cons f fs)
  from Cons.prems(1) show ?case
  proof (cases rule: runFilterers_Cons_cases)
    case Cancel
    then show ?thesis by simp
  next
    case (Proceed v w1 tr2)
    with Cons.IH[OF Proceed(3)] show ?thesis by (simp add: upt_rec)
  next
    case (Throw e w1 tr2)
    with Cons.IH[OF Throw(2)] show ?thesis by (simp add: upt_rec)
  qed
qed

lemma runFilterers_cancel_last:
  "runFilterers c fs k ev w = (b, tr, w') \<Longrightarrow> FiltererCalled j (Normal c) \<in> set tr \<Longrightarrow>
     filterersCalled tr = [k..<Suc j] \<and> last tr = FiltererCalled j (Normal c)"
proof (induction fs arbitrary: k w tr)
  case Nil
  then show ?case by simp
next
  case (Cons f fs)
  from Cons.prems(1) show ?case
  proof (cases rule: runFilterers_Cons_cases)
    case Cancel
    with Cons.prems(2) show ?thesis by simp
  next
    case (Proceed v w1 tr2)
    from Proceed Cons.prems(2) have mem: "FiltererCalled j (Normal c) \<in> set tr2" by auto
    from runFilterers_lower[OF Proceed(3) mem] have "Suc k \<le> j" .
    moreover from mem have "tr2 \<noteq> []" by auto
    ultimately show ?thesis using Cons.IH[OF Proceed(3) mem] Proceed(4)
      by (simp add: upt_rec[of k])
  next
    case (Throw e w1 tr2)
    from Throw Cons.prems(2) have mem: "FiltererCalled j (Normal c) \<in> set tr2" by auto
    from runFilterers_lower[OF Throw(2) mem] have "Suc k \<le> j" .
    moreover from mem have "tr2 \<noteq> []" by auto
    ultimately show ?thesis using Cons.IH[OF Throw(2) mem] Throw(3)
      by (simp add: upt_rec[of k])
  qed
qed


lemma runFilterers_head_called:
  "runFilterers c (g # gs) k ev w = (b, tr, w') \<Longrightarrow> k \<in> set (filterersCalled tr)"
  by (erule runFilterers_Cons_cases) simp_all

lemma runFilterers_continue:
  "runFilterers c fs k ev w = (b, tr, w') \<Longrightarrow> FiltererCalled j r \<in> set tr \<Longrightarrow> r \<noteq> Normal c \<Longrightarrow>
     j < k + length fs \<and>
     (Suc j < k + length fs \<longrightarrow> Suc j \<in> set (filterersCalled tr)) \<and>
     (Suc j = k + length fs \<longrightarrow> \<not> b)"
proof (induction fs arbitrary: k w tr)
  case Nil
  then show ?case by simp
next
  case (Cons f fs)
  have step: ?case
    if rec: "runFilterers c fs (Suc k) ev w1 = (b, tr2, w')"
      and tr: "tr = FiltererCalled k r' # xs @ tr2" and xs: "set xs \<subseteq> range Logged"
    for r' w1 tr2 xs
  proof (cases "j = k")
    case True
    have nxt: "Suc j < k + length (f # fs) \<longrightarrow> Suc j \<in> set (filterersCalled tr)"
    proof
      assume "Suc j < k + length (f # fs)"
      with True obtain g gs where fs: "fs = g # gs" by (cases fs) auto
      from runFilterers_head_called[OF rec[unfolded fs]]
      have "Suc k \<in> set (filterersCalled tr2)" .
      moreover have "set (filterersCalled tr2) \<subseteq> set (filterersCalled tr)"
        using tr xs by (induction xs arbitrary: tr) auto
      ultimately show "Suc j \<in> set (filterersCalled tr)" using True by auto
    qed
    have lst: "Suc j = k + length (f # fs) \<longrightarrow> \<not> b"
    proof
      assume "Suc j = k + length (f # fs)"
      with True have "fs = []" by auto
      with rec show "\<not> b" by simp
    qed
    from nxt lst True show ?thesis by simp
  next
    case False
    with Cons.prems(2) tr xs have mem: "FiltererCalled j r \<in> set tr2" by auto
    have sub: "set (filterersCalled tr2) \<subseteq> set (filterersCalled tr)"
      using tr xs by (induction xs arbitrary: tr) auto
    from Cons.IH[OF rec mem Cons.prems(3)] sub show ?thesis by auto
  qed
  from Cons.prems(1) show ?case
  proof (cases rule: runFilterers_Cons_cases)
    case Cancel
    with Cons.prems(2,3) show ?thesis by simp
  next
    case (Proceed v w1 tr2)
    show ?thesis by (rule step[OF Proceed(3), of "Normal v" "[]"]) (simp_all add: Proceed(4))
  next
    case (Throw e w1 tr2)
    show ?thesis by (rule step[OF Throw(2), of "Abrupt e" "[Logged e]"]) (simp_all add: Throw(3))
  qed
qed


lemma runListeners_Cons_cases:
  assumes "runListeners (l # ls) k ev ps w = (tr, w')"
  obtains
    (Return) v w1 tr2 where "l ev ps w = (Normal v, w1)"
      "runListeners ls (Suc k) ev ps w1 = (tr2, w')" "tr = ListenerCalled k (Normal v) # tr2"
  | (Throw) e w1 tr2 where "l ev ps w = (Abrupt e, w1)"
      "runListeners ls (Suc k) ev ps w1 = (tr2, w')"
      "tr = ListenerCalled k (Abrupt e) # Logged e # tr2"
proof -
  obtain r w1 where l: "l ev ps w = (r, w1)" by (cases "l ev ps w")
  obtain tr2 w2 where rec: "runListeners ls (Suc k) ev ps w1 = (tr2, w2)"
    by (cases "runListeners ls (Suc k) ev ps w1")
  show thesis
  proof (cases r)
    case (Normal v)
    with assms l rec show thesis by (intro Return[of v w1 tr2]) simp_all
  next
    case (Abrupt e)
    with assms l rec show thesis by (intro Throw[of e w1 tr2]) simp_all
  qed
qed

lemma runListeners_calls:
  "runListeners ls k ev ps w = (tr, w') \<Longrightarrow>
     listenersCalled tr = [k..<k + length ls] \<and> filterersCalled tr = []"
proof (induction ls arbitrary: k w tr)
  case Nil
  then show ?case by simp
next
  case (Cons l ls)
  from Cons.prems show ?case
  proof (cases rule: runListeners_Cons_cases)
    case (Return v w1 tr2)
    with Cons.IH[OF Return(2)] show ?thesis by (simp add: upt_rec)
  next
    case (Throw e w1 tr2)
    with Cons.IH[OF Throw(2)] show ?thesis by (simp add: upt_rec)
  qed
qed

lemma runListeners_no_filterer:
  "runListeners ls k ev ps w = (tr, w') \<Longrightarrow> FiltererCalled j r \<notin> set tr"
proof (induction ls arbitrary: k w tr)
  case Nil
  then show ?case by simp
next
  case (Cons l ls)
  from Cons.prems show ?case
  proof (cases rule: runListeners_Cons_cases)
    case (Return v w1 tr2)
    with Cons.IH[OF Return(2)] show ?thesis by simp
  next
    case (Throw e w1 tr2)
    with Cons.IH[OF Throw(2)] show ?thesis by simp
  qed
qed






lemma filterersCalled_append: "filterersCalled (xs @ ys) = filterersCalled xs @ filterersCalled ys"
  by (induction xs rule: filterersCalled.induct) simp_all

lemma listenersCalled_append: "listenersCalled (xs @ ys) = listenersCalled xs @ listenersCalled ys"
  by (induction xs rule: listenersCalled.induct) simp_all

text \<open>The shape of a completed dispatch.\<close>

lemma handleEvent_Completed:
  assumes "handleEvent md m event eventParams w = Completed tr w'"
  obtains
    (Cancelled) "isReadyPromise m = Resolved"
      "runFilterers (enumMember (FilterResult md) ''CANCEL_EVENT'') (filterers m) 0 event w
         = (True, tr, w')"
  | (Delivered) tr1 w1 tr2 where "isReadyPromise m = Resolved"
      "runFilterers (enumMember (FilterResult md) ''CANCEL_EVENT'') (filterers m) 0 event w
         = (False, tr1, w1)"
      "runListeners (listeners m) 0 event eventParams w1 = (tr2, w')"
      "tr = tr1 @ tr2"
proof -
  let ?c = "enumMember (FilterResult md) ''CANCEL_EVENT''"
  from assms have ready: "isReadyPromise m = Resolved"
    by (cases "isReadyPromise m") (simp_all add: handleEvent_def)
  obtain b tr1 w1 where rf: "runFilterers ?c (filterers m) 0 event w = (b, tr1, w1)"
    by (cases "runFilterers ?c (filterers m) 0 event w")
  obtain tr2 w2 where rl: "runListeners (listeners m) 0 event eventParams w1 = (tr2, w2)"
    by (cases "runListeners (listeners m) 0 event eventParams w1")
  show thesis
  proof (cases b)
    case True
    with assms ready rf show thesis by (intro Cancelled) (simp_all add: handleEvent_def)
  next
    case False
    with assms ready rf rl show thesis
      by (intro Delivered[of tr1 w1 tr2]) (simp_all add: handleEvent_def)
  qed
qed



lemma handleEvent_lastAction:
  "handleEvent md (m\<lparr>lastAction := x\<rparr>) event eventParams w = handleEvent md m event eventParams w"
  by (cases "isReadyPromise m") (simp_all add: handleEvent_def split: prod.splits)

lemma runFilterers_upper:
  "runFilterers c fs k ev w = (b, tr, w') \<Longrightarrow> FiltererCalled j r \<in> set tr \<Longrightarrow> j < k + length fs"
proof (induction fs arbitrary: k w tr)
  case Nil
  then show ?case by simp
next
  case (Cons f fs)
  from Cons.prems(1) show ?case
  proof (cases rule: runFilterers_Cons_cases)
    case Cancel
    with Cons.prems(2) show ?thesis by simp
  next
    case (Proceed v w1 tr2)
    with Cons.prems(2) Cons.IH[OF Proceed(3)] show ?thesis by auto
  next
    case (Throw e w1 tr2)
    with Cons.prems(2) Cons.IH[OF Throw(2)] show ?thesis by auto
  qed
qed

lemma registered_lastAction:
  "registered (m\<lparr>lastAction := x\<rparr>) rs = (registered m rs)\<lparr>lastAction := x\<rparr>"
proof (induction rs arbitrary: m)
  case Nil
  show ?case by simp
next
  case (Cons r rs)
  show ?case
  proof (cases r)
    case (ListenerRegistration a)
    show ?thesis
    proof (cases a)
      case (Function l)
      have sw: "m\<lparr>lastAction := x, listeners := listeners m @ [l]\<rparr>
          = (m\<lparr>listeners := listeners m @ [l]\<rparr>)\<lparr>lastAction := x\<rparr>"
        by simp
      have "registered (m\<lparr>lastAction := x\<rparr>) (r # rs)
          = registered (m\<lparr>lastAction := x, listeners := listeners m @ [l]\<rparr>) rs"
        using ListenerRegistration Function by (simp add: registerEventListener_def)
      also have "\<dots> = (registered (m\<lparr>listeners := listeners m @ [l]\<rparr>) rs)\<lparr>lastAction := x\<rparr>"
        unfolding sw by (rule Cons.IH)
      also have "\<dots> = (registered m (r # rs))\<lparr>lastAction := x\<rparr>"
        using ListenerRegistration Function by (simp add: registerEventListener_def)
      finally show ?thesis .
    next
      case (NotFunction v)
      with Cons.IH[of m] ListenerRegistration show ?thesis
        by (simp add: registerEventListener_def)
    qed
  next
    case (FiltererRegistration a)
    show ?thesis
    proof (cases a)
      case (Function f)
      have sw: "m\<lparr>lastAction := x, filterers := filterers m @ [f]\<rparr>
          = (m\<lparr>filterers := filterers m @ [f]\<rparr>)\<lparr>lastAction := x\<rparr>"
        by simp
      have "registered (m\<lparr>lastAction := x\<rparr>) (r # rs)
          = registered (m\<lparr>lastAction := x, filterers := filterers m @ [f]\<rparr>) rs"
        using FiltererRegistration Function by (simp add: registerEventFilterer_def)
      also have "\<dots> = (registered (m\<lparr>filterers := filterers m @ [f]\<rparr>) rs)\<lparr>lastAction := x\<rparr>"
        unfolding sw by (rule Cons.IH)
      also have "\<dots> = (registered m (r # rs))\<lparr>lastAction := x\<rparr>"
        using FiltererRegistration Function by (simp add: registerEventFilterer_def)
      finally show ?thesis .
    next
      case (NotFunction v)
      with Cons.IH[of m] FiltererRegistration show ?thesis
        by (simp add: registerEventFilterer_def)
    qed
  qed
qed


text \<open>
  Claim C1. For every call \<^verbatim>\<open>logEvent(event, params)\<close>: if the event is invalid (not an
  object, \<open>eventType\<close> not a member of \<open>AnalyticsEvent\<close>, \<open>eventOriginator\<close> not a member of
  \<open>EventOriginator\<close>, \<open>additionalParameters\<close> present but not a mapping, or
  \<open>isFromUserAction\<close> present but not a boolean) then \<^verbatim>\<open>logEvent\<close> raises and no dispatch
  is started for the event, so no filterer or listener is ever invoked for it, whatever is
  registered later; if the event is valid, \<^verbatim>\<open>logEvent\<close> does not raise and starts the
  dispatch of the event, which runs on the registries as they are when it resumes.
\<close>

theorem logEvent_validates:
  "(invalidEvent md h event \<longrightarrow>
      (\<exists>e. logEvent md h m event eventParams = Inl e
          \<and> logEvent_dispatch md h m event eventParams registrations w = (Some e, None)))
   \<and> (\<not> invalidEvent md h event \<longrightarrow>
        logEvent md h m event eventParams = Inr (m\<lparr>lastAction := Some (event, eventParams)\<rparr>)
        \<and> logEvent_dispatch md h m event eventParams registrations w
            = (None, Some (handleEvent md (registered m registrations) event eventParams w)))"
proof (cases "invalidEvent md h event")
  case True
  then have "validateEvent md h event \<noteq> Inr ()" by (simp add: validateEvent_Inr_iff)
  then obtain e where "validateEvent md h event = Inl e"
    using validateEvent_cases[of md h event] by auto
  with True show ?thesis by (simp add: logEvent_def logEvent_dispatch_def andThen_def)
next
  case False
  then have "validateEvent md h event = Inr ()" by (simp add: validateEvent_Inr_iff)
  with False show ?thesis
    by (simp add: logEvent_def logEvent_dispatch_def andThen_def registered_lastAction
        handleEvent_lastAction)
qed

lemma example_invalid: "invalidEvent exampleModules exampleHeap (JRef 2)"
  by (simp add: invalidEvent_def exampleModules_def exampleHeap_def fieldOf_def getProperty_def
      ownProps_def isObject_def present_def isBoolean_def)

lemma example_valid: "\<not> invalidEvent exampleModules exampleHeap (JRef 0)"
  by (simp add: invalidEvent_def exampleModules_def exampleHeap_def fieldOf_def getProperty_def
      ownProps_def isObject_def present_def isBoolean_def)

theorem logEvent_validates_witness:
  "invalidEvent exampleModules exampleHeap (JRef 2)
   \<and> (\<exists>e. logEvent exampleModules exampleHeap exampleManager (JRef 2) JUndefined = Inl e
         \<and> logEvent_dispatch exampleModules exampleHeap exampleManager (JRef 2) JUndefined [] 0
             = (Some e, None))
   \<and> \<not> invalidEvent exampleModules exampleHeap (JRef 0)
   \<and> logEvent exampleModules exampleHeap exampleManager (JRef 0) JUndefined
       = Inr (exampleManager\<lparr>lastAction := Some (JRef 0, JUndefined)\<rparr>)"
  using logEvent_validates[where md = exampleModules and h = exampleHeap and event = "JRef 2"
      and m = exampleManager and eventParams = JUndefined and registrations = "[]" and w = 0]
    logEvent_validates[where md = exampleModules and h = exampleHeap and event = "JRef 0"
      and m = exampleManager and eventParams = JUndefined and registrations = "[]" and w = 0]
    example_invalid example_valid
  by simp

text \<open>
  Claim C2. If, in the dispatch of an accepted event, the filterer at index \<open>k\<close> of the
  registry returns \<^verbatim>\<open>CANCEL_EVENT\<close>, the dispatch stops there: the filterers called are
  those at the indices \<open>0, \<dots>, k\<close>, that call is the last thing the dispatch does, and no
  listener is called.
\<close>

theorem cancel_stops_dispatch:
  assumes "handleEvent md m event eventParams w = Completed tr w'"
    and "FiltererCalled k (Normal (enumMember (FilterResult md) ''CANCEL_EVENT'')) \<in> set tr"
  shows "k < length (filterers m)
       \<and> filterersCalled tr = [0..<Suc k]
       \<and> listenersCalled tr = []
       \<and> last tr = FiltererCalled k (Normal (enumMember (FilterResult md) ''CANCEL_EVENT''))"
proof -
  let ?c = "enumMember (FilterResult md) ''CANCEL_EVENT''"
  from assms(1) show ?thesis
  proof (cases rule: handleEvent_Completed)
    case Cancelled
    from runFilterers_cancel_last[OF Cancelled(2) assms(2)]
      runFilterers_no_listener[OF Cancelled(2)]
    have main: "filterersCalled tr = [0..<Suc k]" "listenersCalled tr = []"
      "last tr = FiltererCalled k (Normal ?c)" by simp_all
    from runFilterers_upper[OF Cancelled(2) assms(2)] main show ?thesis by simp
  next
    case (Delivered tr1 w1 tr2)
    from runFilterers_returned_iff[OF Delivered(2)]
    have "FiltererCalled k (Normal ?c) \<notin> set tr1" by blast
    moreover from runListeners_no_filterer[OF Delivered(3)]
    have "FiltererCalled k (Normal ?c) \<notin> set tr2" .
    ultimately show ?thesis using assms(2) Delivered(4) by simp
  qed
qed

lemma example_dispatch:
  "handleEvent exampleModules exampleManager (JRef 0) JUndefined 0 = Completed exampleTrace 2"
  by (simp add: handleEvent_def exampleModules_def exampleManager_def exampleTrace_def
      enumMember_def)

lemma example_CANCEL: "enumMember (FilterResult exampleModules) ''CANCEL_EVENT'' = JNum 1"
  by (simp add: exampleModules_def enumMember_def)

theorem cancel_stops_dispatch_witness:
  "handleEvent exampleModules exampleManager (JRef 0) JUndefined 0 = Completed exampleTrace 2
   \<and> FiltererCalled 1 (Normal (enumMember (FilterResult exampleModules) ''CANCEL_EVENT''))
        \<in> set exampleTrace
   \<and> 1 < length (filterers exampleManager)
   \<and> filterersCalled exampleTrace = [0..<Suc 1]
   \<and> listenersCalled exampleTrace = []
   \<and> last exampleTrace = FiltererCalled 1 (Normal (JNum 1))"
proof -
  have mem: "FiltererCalled 1 (Normal (enumMember (FilterResult exampleModules) ''CANCEL_EVENT''))
        \<in> set exampleTrace"
    by (simp add: example_CANCEL exampleTrace_def)
  from cancel_stops_dispatch[OF example_dispatch mem] example_dispatch mem
  show ?thesis by (simp add: example_CANCEL)
qed






lemma handleEvent_not_cancelled:
  assumes "handleEvent md m event eventParams w = Completed tr w'"
    and "\<not> cancelled md m event w"
  shows "filterersCalled tr = [0..<length (filterers m)]
       \<and> listenersCalled tr = [0..<length (listeners m)]"
  using assms(1)
proof (cases rule: handleEvent_Completed)
  case Cancelled
  with assms(2) show ?thesis by (simp add: cancelled_def)
next
  case (Delivered tr1 w1 tr2)
  from runFilterers_all_called[OF Delivered(2)] runFilterers_no_listener[OF Delivered(2)]
    runListeners_calls[OF Delivered(3)] Delivered(4)
  show ?thesis by (simp add: filterersCalled_append listenersCalled_append)
qed

lemma handleEvent_cancelled_iff:
  assumes "handleEvent md m event eventParams w = Completed tr w'"
  shows "cancelled md m event w
       = (\<exists>k. FiltererCalled k (Normal (enumMember (FilterResult md) ''CANCEL_EVENT'')) \<in> set tr)"
  using assms(1)
proof (cases rule: handleEvent_Completed)
  case Cancelled
  from runFilterers_returned_iff[OF Cancelled(2)] Cancelled(2) show ?thesis
    by (simp add: cancelled_def)
next
  case (Delivered tr1 w1 tr2)
  from runFilterers_returned_iff[OF Delivered(2)] runListeners_no_filterer[OF Delivered(3)]
    Delivered(2,4)
  show ?thesis by (auto simp: cancelled_def)
qed

lemma handleEvent_continue:
  assumes "handleEvent md m event eventParams w = Completed tr w'"
    and "FiltererCalled k r \<in> set tr"
    and "r \<noteq> Normal (enumMember (FilterResult md) ''CANCEL_EVENT'')"
  shows "(Suc k < length (filterers m) \<longrightarrow> Suc k \<in> set (filterersCalled tr))
       \<and> (Suc k = length (filterers m) \<longrightarrow> listenersCalled tr = [0..<length (listeners m)])"
  using assms(1)
proof (cases rule: handleEvent_Completed)
  case Cancelled
  from runFilterers_continue[OF Cancelled(2) assms(2,3)] show ?thesis by simp
next
  case (Delivered tr1 w1 tr2)
  from runListeners_no_filterer[OF Delivered(3)] assms(2) Delivered(4)
  have mem: "FiltererCalled k r \<in> set tr1" by auto
  from runFilterers_continue[OF Delivered(2) mem assms(3)]
    runFilterers_no_listener[OF Delivered(2)] runListeners_calls[OF Delivered(3)] Delivered(4)
  show ?thesis by (simp add: filterersCalled_append listenersCalled_append)
qed


text \<open>
  Claim C10. A completed dispatch was cancelled if and only if some call of a filterer
  returned exactly \<^verbatim>\<open>CANCEL_EVENT\<close>. A cancelled dispatch calls no listener; one that was
  not cancelled calls every filterer and every listener, in order; and after any call of
  a filterer that completed otherwise (with another value, \<^verbatim>\<open>undefined\<close> included, or by
  throwing) the next filterer, or after the last filterer every listener, is called.
\<close>

theorem cancel_iff_CANCEL_EVENT:
  assumes "handleEvent md m event eventParams w = Completed tr w'"
  shows "(cancelled md m event w
          = (\<exists>k. FiltererCalled k (Normal (enumMember (FilterResult md) ''CANCEL_EVENT''))
                    \<in> set tr))
     \<and> (cancelled md m event w \<longrightarrow> listenersCalled tr = [])
     \<and> (\<not> cancelled md m event w \<longrightarrow>
           filterersCalled tr = [0..<length (filterers m)]
           \<and> listenersCalled tr = [0..<length (listeners m)])
     \<and> (\<forall>k r. FiltererCalled k r \<in> set tr
               \<and> r \<noteq> Normal (enumMember (FilterResult md) ''CANCEL_EVENT'') \<longrightarrow>
           (Suc k < length (filterers m) \<longrightarrow> Suc k \<in> set (filterersCalled tr))
           \<and> (Suc k = length (filterers m) \<longrightarrow>
                listenersCalled tr = [0..<length (listeners m)]))"
proof -
  have c: "cancelled md m event w \<longrightarrow> listenersCalled tr = []"
  proof
    assume "cancelled md m event w"
    with assms show "listenersCalled tr = []"
      by (cases rule: handleEvent_Completed)
         (auto simp: cancelled_def dest: runFilterers_no_listener)
  qed
  from handleEvent_cancelled_iff[OF assms] c handleEvent_not_cancelled[OF assms]
    handleEvent_continue[OF assms]
  show ?thesis by blast
qed

lemma example_dispatch2:
  "handleEvent exampleModules exampleManager2 (JRef 0) JUndefined 0 = Completed exampleTrace2 22"
  by (simp add: handleEvent_def exampleModules_def exampleManager2_def exampleTrace2_def
      enumMember_def)


lemma example_cancelled: "cancelled exampleModules exampleManager (JRef 0) 0"
  by (simp add: cancelled_def exampleModules_def exampleManager_def enumMember_def)

lemma example_not_cancelled: "\<not> cancelled exampleModules exampleManager2 (JRef 0) 0"
  by (simp add: cancelled_def exampleModules_def exampleManager2_def enumMember_def)

theorem cancel_iff_CANCEL_EVENT_witness:
  "handleEvent exampleModules exampleManager (JRef 0) JUndefined 0 = Completed exampleTrace 2
   \<and> cancelled exampleModules exampleManager (JRef 0) 0
   \<and> listenersCalled exampleTrace = []
   \<and> handleEvent exampleModules exampleManager2 (JRef 0) JUndefined 0
       = Completed exampleTrace2 22
   \<and> \<not> cancelled exampleModules exampleManager2 (JRef 0) 0
   \<and> FiltererCalled 1 (Normal JUndefined) \<in> set exampleTrace2
   \<and> filterersCalled exampleTrace2 = [0..<2]
   \<and> listenersCalled exampleTrace2 = [0..<2]"
proof -
  have n: "length (filterers exampleManager2) = 2" "length (listeners exampleManager2) = 2"
    by (simp_all add: exampleManager2_def)
  have u: "FiltererCalled 1 (Normal JUndefined) \<in> set exampleTrace2"
    by (simp add: exampleTrace2_def)
  from cancel_iff_CANCEL_EVENT[OF example_dispatch] example_cancelled
  have a: "listenersCalled exampleTrace = []" by blast
  from cancel_iff_CANCEL_EVENT[OF example_dispatch2] example_not_cancelled
  have b: "filterersCalled exampleTrace2 = [0..<2] \<and> listenersCalled exampleTrace2 = [0..<2]"
    unfolding n by blast
  from a b u example_dispatch example_dispatch2 example_cancelled example_not_cancelled
  show ?thesis by simp
qed

section \<open>Properties of the client identifier\<close>

lemma getClientId_cached:
  "truthyId (clientId s) \<Longrightarrow> getClientId rt s = (clientId s, s)"
  by (simp add: getClientId_def)

lemma getClientId_derives:
  "\<not> truthyId (clientId s) \<Longrightarrow>
     getClientId rt s =
       (map_option (encodeURIComponent rt) (matchGads rt (documentCookie s)),
        s\<lparr>clientId := map_option (encodeURIComponent rt) (matchGads rt (documentCookie s))\<rparr>)"
  by (simp add: getClientId_def getDocumentCookie_def Let_def map_option_case)

lemma getClientId_result: "clientId (snd (getClientId rt s)) = fst (getClientId rt s)"
  by (simp add: getClientId_def Let_def)

lemma getClientId_keeps:
  "truthyId (clientId s) \<Longrightarrow> clientId (snd (getClientId rt s)) = clientId s"
  by (simp add: getClientId_cached)

lemma propensityUrl_keeps:
  "truthyId (clientId s) \<Longrightarrow> clientId (snd (propensityUrl rt s u)) = clientId s"
  by (simp add: propensityUrl_def getClientId_cached Let_def)

lemma sendSubscriptionState_keeps:
  "truthyId (clientId s) \<Longrightarrow> clientId (sendSubscriptionState rt s st ps) = clientId s"
  using propensityUrl_keeps[of s rt]
  by (simp add: sendSubscriptionState_def fetch_def Let_def split: prod.splits)
     (metis snd_conv)

lemma sendEvent_keeps:
  "truthyId (clientId s) \<Longrightarrow> clientId (sendEvent rt s ev c) = clientId s"
  using propensityUrl_keeps[of s rt]
  by (simp add: sendEvent_def fetch_def Let_def split: prod.splits)
     (metis snd_conv)


lemma forwardEvent_keeps:
  "truthyId (clientId s) \<Longrightarrow> clientId (snd (forwardEvent rt md s event)) = clientId s"
  by (simp add: forwardEvent_def orThrow_def sendEvent_keeps Let_def
      split: sum.splits prod.splits)

lemma processEvent_keeps:
  "truthyId (clientId s) \<Longrightarrow> clientId (snd (processEvent rt md s event)) = clientId s"
  by (simp add: processEvent_def orThrow_def sendSubscriptionState_keeps forwardEvent_keeps
      split: sum.splits)

lemma handleClientEvent_keeps:
  "truthyId (clientId s) \<Longrightarrow> clientId (snd (handleClientEvent rt md s event)) = clientId s"
  by (simp add: handleClientEvent_def orThrow_def processEvent_keeps split: sum.splits)

lemma getPropensity_keeps:
  "truthyId (clientId s) \<Longrightarrow>
     clientId (snd (getPropensity rt s referrer type' fetcher)) = clientId s"
  using propensityUrl_keeps[of s rt]
  by (simp add: getPropensity_def fetch_def Let_def split: prod.splits fetchOutcome.splits)
     (metis snd_conv)

text \<open>
  Claim C9, as amended. The client identifier is cached once it has been found: after a
  call of \<^verbatim>\<open>getClientId_\<close> has returned a non-empty identifier, every later call returns
  that identifier and leaves the state alone, whatever the cookie string has become, and
  neither a handled event nor a score query rewrites the field. As long as no identifier
  has been found, each call derives it again from the current cookie string.
\<close>

theorem clientId_cached_once_found:
  "(truthyId (fst (getClientId rt s)) \<longrightarrow>
      (\<forall>cookie. getClientId rt ((snd (getClientId rt s))\<lparr>documentCookie := cookie\<rparr>)
                 = (fst (getClientId rt s), (snd (getClientId rt s))\<lparr>documentCookie := cookie\<rparr>)))
   \<and> (truthyId (clientId s) \<longrightarrow>
        clientId (snd (getClientId rt s)) = clientId s
        \<and> clientId (snd (handleClientEvent rt md s event)) = clientId s
        \<and> clientId (snd (getPropensity rt s referrer type' fetcher)) = clientId s)
   \<and> (\<not> truthyId (clientId s) \<longrightarrow>
        fst (getClientId rt s)
          = map_option (encodeURIComponent rt) (matchGads rt (documentCookie s)))"
proof -
  have a: "truthyId (fst (getClientId rt s)) \<longrightarrow>
      (\<forall>cookie. getClientId rt ((snd (getClientId rt s))\<lparr>documentCookie := cookie\<rparr>)
                 = (fst (getClientId rt s), (snd (getClientId rt s))\<lparr>documentCookie := cookie\<rparr>))"
  proof (intro impI allI)
    fix cookie
    assume t: "truthyId (fst (getClientId rt s))"
    let ?s1 = "(snd (getClientId rt s))\<lparr>documentCookie := cookie\<rparr>"
    have "clientId ?s1 = fst (getClientId rt s)" by (simp add: getClientId_result)
    with t getClientId_cached[of ?s1 rt]
    show "getClientId rt ?s1 = (fst (getClientId rt s), ?s1)" by simp
  qed
  from a show ?thesis
    by (simp add: getClientId_keeps handleClientEvent_keeps getPropensity_keeps
        getClientId_derives)
qed

theorem clientId_cached_once_found_witness:
  "truthyId (fst (getClientId exampleRuntime (exampleServer\<lparr>documentCookie := ''__gads=abc''\<rparr>)))
   \<and> getClientId exampleRuntime
        ((snd (getClientId exampleRuntime (exampleServer\<lparr>documentCookie := ''__gads=abc''\<rparr>)))
           \<lparr>documentCookie := ''other=1''\<rparr>)
       = (Some ''abc'', exampleServer\<lparr>documentCookie := ''other=1'', clientId := Some ''abc''\<rparr>)
   \<and> \<not> truthyId (clientId exampleServer)
   \<and> fst (getClientId exampleRuntime exampleServer) = None"
proof -
  let ?s = "exampleServer\<lparr>documentCookie := ''__gads=abc''\<rparr>"
  have first: "getClientId exampleRuntime ?s = (Some ''abc'', ?s\<lparr>clientId := Some ''abc''\<rparr>)"
    by (simp add: getClientId_def getDocumentCookie_def exampleRuntime_def exampleServer_def
        truthyId_def Let_def)
  have t: "truthyId (fst (getClientId exampleRuntime ?s))"
    by (simp add: first truthyId_def)
  have n: "\<not> truthyId (clientId exampleServer)"
    by (simp add: exampleServer_def truthyId_def)
  from clientId_cached_once_found[of exampleRuntime ?s] t
  have "getClientId exampleRuntime ((snd (getClientId exampleRuntime ?s))\<lparr>documentCookie := ''other=1''\<rparr>)
      = (fst (getClientId exampleRuntime ?s),
         (snd (getClientId exampleRuntime ?s))\<lparr>documentCookie := ''other=1''\<rparr>)"
    by blast
  then have later: "getClientId exampleRuntime
        ((snd (getClientId exampleRuntime ?s))\<lparr>documentCookie := ''other=1''\<rparr>)
      = (Some ''abc'', exampleServer\<lparr>documentCookie := ''other=1'', clientId := Some ''abc''\<rparr>)"
    unfolding first by (simp add: exampleServer_def)
  from clientId_cached_once_found[of exampleRuntime exampleServer] n
  have "fst (getClientId exampleRuntime exampleServer)
      = map_option (encodeURIComponent exampleRuntime)
          (matchGads exampleRuntime (documentCookie exampleServer))"
    by blast
  then have none: "fst (getClientId exampleRuntime exampleServer) = None"
    by (simp add: exampleRuntime_def exampleServer_def)
  from t later n none show ?thesis by blast
qed

text \<open>
  Claim C9 as stated fails: a first call that finds no \<^verbatim>\<open>__gads\<close> cookie returns
  \<^verbatim>\<open>null\<close>, and a second call, made after the cookie has appeared, derives the identifier
  from the cookie string and writes the field.
\<close>

theorem clientId_rederived_counterexample:
  "fst (getClientId exampleRuntime exampleServer) = None
   \<and> getClientId exampleRuntime
        ((snd (getClientId exampleRuntime exampleServer))\<lparr>documentCookie := ''__gads=abc''\<rparr>)
       = (Some ''abc'',
          exampleServer\<lparr>documentCookie := ''__gads=abc'', clientId := Some ''abc''\<rparr>)"
  by (simp add: getClientId_def getDocumentCookie_def exampleRuntime_def exampleServer_def
      truthyId_def Let_def)

section \<open>Properties of the response parser\<close>











section \<open>Properties of the score query\<close>

text \<open>
  Claim C4 fails on the code. A response whose header has \<open>ok = true\<close> and that has no
  \<open>scores\<close> makes \<^verbatim>\<open>parsePropensityResponse_\<close> read \<^verbatim>\<open>scores.length\<close> of \<^verbatim>\<open>undefined\<close>:
  the \<^verbatim>\<open>TypeError\<close> rejects the promise of \<^verbatim>\<open>getPropensity\<close>.
\<close>

theorem getPropensity_rejects_missing_scores:
  "parsePropensityResponse exampleRuntime (OBJ [(''header'', OBJ [(''ok'', BOOL True)])])
     = Inl TypeError
   \<and> fst (getPropensity exampleRuntime exampleServer ''referrer'' ''general''
            (\<lambda>r. Body (OBJ [(''header'', OBJ [(''ok'', BOOL True)])])))
       = Inl TypeError"
proof -
  have loop: "scoreLoop exampleRuntime UNDEFINED 0 [] = Inl TypeError"
    by (subst scoreLoop.simps) (simp add: getMember_def)
  have parse: "parsePropensityResponse exampleRuntime (OBJ [(''header'', OBJ [(''ok'', BOOL True)])])
     = Inl TypeError"
    by (simp add: parsePropensityResponse_def getMember_def truthyJson_def andThen_def loop)
  then show ?thesis
    by (simp add: getPropensity_def Let_def split: prod.splits)
qed

section \<open>Properties of the event consumer\<close>

lemma getProperty_fieldOf: "notNull v \<Longrightarrow> getProperty h v k = Inr (fieldOf h v k)"
  by (cases v) (simp_all add: getProperty_def fieldOf_def notNull_def)

lemma propensityUrl_shape:
  "\<exists>tail. query (fst (propensityUrl rt s u)) = query u @ tail
        \<and> fst ` set tail \<subseteq> {''u_tz'', ''v'', ''cookie'', ''cdm''}
        \<and> base (fst (propensityUrl rt s u)) = base u
        \<and> fetched (snd (propensityUrl rt s u)) = fetched s
        \<and> store (snd (propensityUrl rt s u)) = store s"
proof -
  obtain cid s' where g: "getClientId rt s = (cid, s')" by (cases "getClientId rt s")
  then have s': "fetched s' = fetched s" "store s' = store s"
    by (auto simp: getClientId_def Let_def split: if_splits)
  show ?thesis
  proof (cases "\<exists>c. cid = Some c \<and> c \<noteq> []")
    case True
    then obtain c where c: "cid = Some c" "c \<noteq> []" by blast
    have "query (fst (propensityUrl rt s u))
        = query u @ [(''u_tz'', ''240''), (''v'', decimal (version s)), (''cookie'', c),
                     (''cdm'', locationHostname s')]"
      using g c by (simp add: propensityUrl_def addQueryParam_def Let_def)
    moreover have "base (fst (propensityUrl rt s u)) = base u"
      using g c by (simp add: propensityUrl_def addQueryParam_def Let_def)
    moreover have "snd (propensityUrl rt s u) = s'"
      using g c by (simp add: propensityUrl_def Let_def)
    ultimately show ?thesis using s'
      by (intro exI[of _ "[(''u_tz'', ''240''), (''v'', decimal (version s)), (''cookie'', c),
                     (''cdm'', locationHostname s')]"]) simp
  next
    case False
    have "query (fst (propensityUrl rt s u))
        = query u @ [(''u_tz'', ''240''), (''v'', decimal (version s)),
                     (''cdm'', locationHostname s')]"
      using g False by (cases cid) (simp_all add: propensityUrl_def addQueryParam_def Let_def)
    moreover have "base (fst (propensityUrl rt s u)) = base u"
      using g False by (cases cid) (simp_all add: propensityUrl_def addQueryParam_def Let_def)
    moreover have "snd (propensityUrl rt s u) = s'"
      using g False by (cases cid) (simp_all add: propensityUrl_def Let_def)
    ultimately show ?thesis using s'
      by (intro exI[of _ "[(''u_tz'', ''240''), (''v'', decimal (version s)),
                     (''cdm'', locationHostname s')]"]) simp
  qed
qed

lemma map_of_append_fresh:
  "k \<notin> fst ` set ys \<Longrightarrow> map_of (xs @ ys) k = map_of xs k"
  by (simp add: map_add_def map_of_eq_None_iff[THEN iffD2] split: option.splits)

lemma sendSubscriptionState_report:
  "\<exists>r. fetched (sendSubscriptionState rt s state productsOrSkus) = fetched s @ [r]
      \<and> store (sendSubscriptionState rt s state productsOrSkus) = store s
      \<and> isSubscriptionStateReport r \<and> \<not> isEventReport r
      \<and> map_of (query (requestUrl r)) ''states''
          = Some (publicationId s @ '':'' @ toText rt (store s) state)
      \<and> map_of (query (requestUrl r)) ''extrainfo''
          = (if truthy productsOrSkus then Some (toText rt (store s) productsOrSkus) else None)"
proof -
  define u2 where "u2 =
    (let u = adsUrl ''/subopt/data'';
         u1 = addQueryParam u ''states'' (publicationId s @ '':'' @ toText rt (store s) state)
     in if truthy productsOrSkus
        then addQueryParam u1 ''extrainfo'' (toText rt (store s) productsOrSkus)
        else u1)"
  have q: "query u2 = (''states'', publicationId s @ '':'' @ toText rt (store s) state)
      # (if truthy productsOrSkus then [(''extrainfo'', toText rt (store s) productsOrSkus)]
         else [])"
    by (simp add: u2_def adsUrl_def addQueryParam_def Let_def)
  from propensityUrl_shape[of rt s u2] obtain tail where
    t: "query (fst (propensityUrl rt s u2)) = query u2 @ tail"
      "fst ` set tail \<subseteq> {''u_tz'', ''v'', ''cookie'', ''cdm''}"
      "fetched (snd (propensityUrl rt s u2)) = fetched s"
      "store (snd (propensityUrl rt s u2)) = store s"
    by blast
  let ?r = "requestOf (fst (propensityUrl rt s u2))"
  have send: "sendSubscriptionState rt s state productsOrSkus
      = fetch (snd (propensityUrl rt s u2)) (fst (propensityUrl rt s u2))"
    by (simp add: sendSubscriptionState_def u2_def Let_def split: prod.splits)
  have fresh: "''states'' \<notin> fst ` set tail" "''extrainfo'' \<notin> fst ` set tail"
    "''events'' \<notin> fst ` set tail"
    using t(2) by auto
  have qr: "query (requestUrl ?r) = query u2 @ tail" by (simp add: requestOf_def t(1))
  have "fetched (sendSubscriptionState rt s state productsOrSkus) = fetched s @ [?r]"
    by (simp add: send fetch_def t(3))
  moreover have "store (sendSubscriptionState rt s state productsOrSkus) = store s"
    by (simp add: send fetch_def t(4))
  moreover have "isSubscriptionStateReport ?r"
    by (simp add: isSubscriptionStateReport_def qr q)
  moreover have "\<not> isEventReport ?r"
    using fresh(3) by (auto simp: isEventReport_def qr q)
  moreover have "map_of (query (requestUrl ?r)) ''states''
      = Some (publicationId s @ '':'' @ toText rt (store s) state)"
    unfolding qr map_of_append_fresh[OF fresh(1)] by (simp add: q)
  moreover have "map_of (query (requestUrl ?r)) ''extrainfo''
      = (if truthy productsOrSkus then Some (toText rt (store s) productsOrSkus) else None)"
    unfolding qr map_of_append_fresh[OF fresh(2)] by (simp add: q)
  ultimately show ?thesis by blast
qed

lemma sendEvent_report:
  "\<exists>r. fetched (sendEvent rt s event context') = fetched s @ [r]
      \<and> store (sendEvent rt s event context') = store s
      \<and> isEventReport r \<and> \<not> isSubscriptionStateReport r
      \<and> map_of (query (requestUrl r)) ''events''
          = Some (publicationId s @ '':'' @ toText rt (store s) event)
      \<and> map_of (query (requestUrl r)) ''extrainfo''
          = (if truthy context' then Some (toText rt (store s) context') else None)"
proof -
  define u2 where "u2 =
    (let u = adsUrl ''/subopt/data'';
         u1 = addQueryParam u ''events'' (publicationId s @ '':'' @ toText rt (store s) event)
     in if truthy context'
        then addQueryParam u1 ''extrainfo'' (toText rt (store s) context')
        else u1)"
  have q: "query u2 = (''events'', publicationId s @ '':'' @ toText rt (store s) event)
      # (if truthy context' then [(''extrainfo'', toText rt (store s) context')] else [])"
    by (simp add: u2_def adsUrl_def addQueryParam_def Let_def)
  from propensityUrl_shape[of rt s u2] obtain tail where
    t: "query (fst (propensityUrl rt s u2)) = query u2 @ tail"
      "fst ` set tail \<subseteq> {''u_tz'', ''v'', ''cookie'', ''cdm''}"
      "fetched (snd (propensityUrl rt s u2)) = fetched s"
      "store (snd (propensityUrl rt s u2)) = store s"
    by blast
  let ?r = "requestOf (fst (propensityUrl rt s u2))"
  have send: "sendEvent rt s event context'
      = fetch (snd (propensityUrl rt s u2)) (fst (propensityUrl rt s u2))"
    by (simp add: sendEvent_def u2_def Let_def split: prod.splits)
  have fresh: "''states'' \<notin> fst ` set tail" "''extrainfo'' \<notin> fst ` set tail"
    "''events'' \<notin> fst ` set tail"
    using t(2) by auto
  have qr: "query (requestUrl ?r) = query u2 @ tail" by (simp add: requestOf_def t(1))
  have "fetched (sendEvent rt s event context') = fetched s @ [?r]"
    by (simp add: send fetch_def t(3))
  moreover have "store (sendEvent rt s event context') = store s"
    by (simp add: send fetch_def t(4))
  moreover have "isEventReport ?r"
    by (simp add: isEventReport_def qr q)
  moreover have "\<not> isSubscriptionStateReport ?r"
    using fresh(1) by (auto simp: isSubscriptionStateReport_def qr q)
  moreover have "map_of (query (requestUrl ?r)) ''events''
      = Some (publicationId s @ '':'' @ toText rt (store s) event)"
    unfolding qr map_of_append_fresh[OF fresh(3)] by (simp add: q)
  moreover have "map_of (query (requestUrl ?r)) ''extrainfo''
      = (if truthy context' then Some (toText rt (store s) context') else None)"
    unfolding qr map_of_append_fresh[OF fresh(2)] by (simp add: q)
  ultimately show ?thesis by blast
qed




lemmas example_store_simps =
  exampleServer_def exampleHeap_def exampleModules_def fieldOf_def getProperty_def ownProps_def
  enumMember_def notNull_def


text \<open>
  Claim C7, as amended. When \<^verbatim>\<open>handleClientEvent_\<close> processes an event that is not dropped,
  whose type is \<^verbatim>\<open>EVENT_SUBSCRIPTION_STATE\<close> and whose \<open>additionalParameters\<close> is not
  \<^verbatim>\<open>null\<close> or \<^verbatim>\<open>undefined\<close>, it does what \<^verbatim>\<open>sendSubscriptionState\<close> does with the fields
  \<open>state\<close> and \<open>productsOrSkus\<close> of the parameters and nothing else: exactly one request goes
  out, it is a subscription-state report built from those fields, and it is not an event
  report.
\<close>

theorem subscription_state_report:
  assumes "notNull event"
    and "fieldOf (store s) event ''eventOriginator''
           \<noteq> enumMember (EventOriginator md) ''SHOWCASE_CLIENT''"
    and "enablePropensity s
         \<or> fieldOf (store s) event ''eventOriginator''
             = enumMember (EventOriginator md) ''PROPENSITY_CLIENT''"
    and "fieldOf (store s) event ''eventType''
           = enumMember (AnalyticsEvent md) ''EVENT_SUBSCRIPTION_STATE''"
    and "notNull (fieldOf (store s) event ''additionalParameters'')"
  shows
    "handleClientEvent rt md s event
       = (Normal JUndefined,
          sendSubscriptionState rt s
            (fieldOf (store s) (fieldOf (store s) event ''additionalParameters'') ''state'')
            (fieldOf (store s) (fieldOf (store s) event ''additionalParameters'') ''productsOrSkus''))
     \<and> (\<exists>r. fetched (snd (handleClientEvent rt md s event)) = fetched s @ [r]
           \<and> isSubscriptionStateReport r \<and> \<not> isEventReport r
           \<and> map_of (query (requestUrl r)) ''states''
               = Some (publicationId s @ '':''
                       @ toText rt (store s)
                           (fieldOf (store s) (fieldOf (store s) event ''additionalParameters'')
                              ''state''))
           \<and> map_of (query (requestUrl r)) ''extrainfo''
               = (if truthy (fieldOf (store s) (fieldOf (store s) event ''additionalParameters'')
                               ''productsOrSkus'')
                  then Some (toText rt (store s)
                               (fieldOf (store s) (fieldOf (store s) event ''additionalParameters'')
                                  ''productsOrSkus''))
                  else None))"
proof -
  let ?ap = "fieldOf (store s) event ''additionalParameters''"
  note get = getProperty_fieldOf[OF assms(1), of "store s"]
  note get' = getProperty_fieldOf[OF assms(5), of "store s"]
  have run: "handleClientEvent rt md s event
       = (Normal JUndefined,
          sendSubscriptionState rt s (fieldOf (store s) ?ap ''state'')
            (fieldOf (store s) ?ap ''productsOrSkus''))"
    using assms(2,3,4)
    by (auto simp: handleClientEvent_def processEvent_def orThrow_def get get')
  from sendSubscriptionState_report[of rt s "fieldOf (store s) ?ap ''state''"
      "fieldOf (store s) ?ap ''productsOrSkus''"] run
  show ?thesis by auto
qed

theorem subscription_state_report_witness:
  "notNull (JRef 4)
   \<and> handleClientEvent exampleRuntime exampleModules exampleServer (JRef 4)
       = (Normal JUndefined,
          sendSubscriptionState exampleRuntime exampleServer (JStr ''subscriber'') (JStr ''basic''))
   \<and> (\<exists>r. fetched (snd (handleClientEvent exampleRuntime exampleModules exampleServer (JRef 4)))
             = fetched exampleServer @ [r]
          \<and> isSubscriptionStateReport r \<and> \<not> isEventReport r
          \<and> map_of (query (requestUrl r)) ''states'' = Some ''pub1:subscriber''
          \<and> map_of (query (requestUrl r)) ''extrainfo'' = Some ''basic'')"
proof -
  have n: "notNull (JRef 4)" by (simp add: notNull_def)
  have a: "fieldOf (store exampleServer) (JRef 4) ''eventOriginator''
           \<noteq> enumMember (EventOriginator exampleModules) ''SHOWCASE_CLIENT''"
    by (simp add: example_store_simps)
  have b: "enablePropensity exampleServer
         \<or> fieldOf (store exampleServer) (JRef 4) ''eventOriginator''
             = enumMember (EventOriginator exampleModules) ''PROPENSITY_CLIENT''"
    by (simp add: example_store_simps)
  have c: "fieldOf (store exampleServer) (JRef 4) ''eventType''
           = enumMember (AnalyticsEvent exampleModules) ''EVENT_SUBSCRIPTION_STATE''"
    by (simp add: example_store_simps)
  have ap: "fieldOf (store exampleServer) (JRef 4) ''additionalParameters'' = JRef 5"
    by (simp add: example_store_simps)
  have d: "notNull (fieldOf (store exampleServer) (JRef 4) ''additionalParameters'')"
    by (simp add: ap notNull_def)
  have f: "fieldOf (store exampleServer) (JRef 5) ''state'' = JStr ''subscriber''"
    "fieldOf (store exampleServer) (JRef 5) ''productsOrSkus'' = JStr ''basic''"
    by (simp_all add: example_store_simps)
  have t: "toText exampleRuntime (store exampleServer) (JStr ''subscriber'') = ''subscriber''"
    "toText exampleRuntime (store exampleServer) (JStr ''basic'') = ''basic''"
    "truthy (JStr ''basic'')" "publicationId exampleServer = ''pub1''"
    by (simp_all add: toText_def truthy_def exampleServer_def)
  note r = subscription_state_report[OF n a b c d, of exampleRuntime, unfolded ap f]
  from r[THEN conjunct1] r[THEN conjunct2] n show ?thesis by (simp only: t if_True) simp
qed

text \<open>
  Claim C7 as stated fails: a valid event of type \<^verbatim>\<open>EVENT_SUBSCRIPTION_STATE\<close> that is not
  dropped and carries no \<open>additionalParameters\<close> makes \<^verbatim>\<open>handleClientEvent_\<close> read
  \<^verbatim>\<open>state\<close> of \<^verbatim>\<open>undefined\<close>: it throws, and no report goes out.
\<close>

theorem subscription_state_without_parameters_counterexample:
  "\<not> invalidEvent exampleModules (store exampleServer) (JRef 3)
   \<and> fieldOf (store exampleServer) (JRef 3) ''eventType''
       = enumMember (AnalyticsEvent exampleModules) ''EVENT_SUBSCRIPTION_STATE''
   \<and> fieldOf (store exampleServer) (JRef 3) ''eventOriginator''
       = enumMember (EventOriginator exampleModules) ''PROPENSITY_CLIENT''
   \<and> handleClientEvent exampleRuntime exampleModules exampleServer (JRef 3)
       = (Abrupt TypeError, exampleServer)
   \<and> fetched (snd (handleClientEvent exampleRuntime exampleModules exampleServer (JRef 3))) = []"
proof -
  have run: "handleClientEvent exampleRuntime exampleModules exampleServer (JRef 3)
       = (Abrupt TypeError, exampleServer)"
    by (simp add: handleClientEvent_def processEvent_def orThrow_def example_store_simps)
  have valid: "\<not> invalidEvent exampleModules (store exampleServer) (JRef 3)"
    by (simp add: invalidEvent_def example_store_simps isObject_def present_def)
  from run valid show ?thesis
    by (simp add: example_store_simps)
qed


lemma fieldOf_append:
  assumes "isBoolean (fieldOf h event k)"
  shows "fieldOf (h @ xs) event k = fieldOf h event k"
proof (cases event)
  case (JRef e)
  show ?thesis
  proof (cases "e < length h")
    case True
    with JRef show ?thesis
      by (simp add: fieldOf_def getProperty_def ownProps_def nth_append)
  next
    case False
    with assms JRef show ?thesis
      by (simp add: fieldOf_def getProperty_def ownProps_def isBoolean_def)
  qed
qed (simp_all add: fieldOf_def getProperty_def)

lemma setProperty_newObject:
  "setProperty (h @ [\<lparr>instanceOfEventParams = False, props = []\<rparr>]) (JRef (length h)) k v
     = h @ [\<lparr>instanceOfEventParams = False, props = [(k, v)]\<rparr>]"
  by (simp add: setProperty_def)

lemma map_of_assign: "map_of (assign k v ps) = (map_of ps)(k \<mapsto> v)"
  by (induction ps) (auto simp: fun_eq_iff)

lemma ownProps_setProperty:
  "a < length h \<Longrightarrow> ownProps (setProperty h (JRef a) k v) a = assign k v (ownProps h a)"
  by (simp add: setProperty_def ownProps_def)

lemma ownProps_setProperty_other:
  "a' \<noteq> a \<Longrightarrow> ownProps (setProperty h (JRef a) k v) a' = ownProps h a'"
  by (simp add: setProperty_def ownProps_def)

lemma prepareParameters_assigns:
  assumes "notNull event"
    and "isBoolean (fieldOf h event ''isFromUserAction'')"
    and "isObject (fieldOf h event ''additionalParameters'')"
    and "\<not> instanceofEventParams h (fieldOf h event ''additionalParameters'')"
  shows "prepareParameters h event
    = Inr (fieldOf h event ''additionalParameters'',
           setProperty h (fieldOf h event ''additionalParameters'') ''is_active''
             (fieldOf h event ''isFromUserAction''))"
  using assms
  by (simp add: prepareParameters_def andThen_def getProperty_fieldOf Let_def)

text \<open>
  Claim C8, as amended. When \<^verbatim>\<open>handleClientEvent_\<close> forwards a generic event, what it
  serializes is this. If \<open>isFromUserAction\<close> is not a boolean: \<^verbatim>\<open>undefined\<close> in place of an
  \<^verbatim>\<open>EventParams\<close> instance, else the event's \<open>additionalParameters\<close>, and nothing is written.
  If \<open>isFromUserAction\<close> is a boolean and the parameters are not an object or are an
  \<^verbatim>\<open>EventParams\<close> instance: a new mapping that holds \<open>is_active\<close> only, and no object of the
  caller is written. If \<open>isFromUserAction\<close> is a boolean and the parameters are any other
  object: that very object, into which \<open>is_active\<close> has been assigned; no copy is made, so
  the caller's \<open>event.additionalParameters\<close> holds \<open>is_active\<close> afterwards, and no other
  object is written.
\<close>

theorem forwarded_parameters:
  assumes "notNull event"
    and "h = store s"
    and "ap = fieldOf h event ''additionalParameters''"
    and "b = fieldOf h event ''isFromUserAction''"
    and "propEvent = analyticsEventToPublisherEvent md (fieldOf h event ''eventType'')"
  shows
    "(\<not> isBoolean b \<longrightarrow>
        prepareParameters h event
          = Inr (if instanceofEventParams h ap then JUndefined else ap, h))
     \<and> (isBoolean b \<and> (\<not> isObject ap \<or> instanceofEventParams h ap) \<longrightarrow>
          prepareParameters h event
            = Inr (JRef (length h),
                   h @ [\<lparr>instanceOfEventParams = False, props = [(''is_active'', b)]\<rparr>]))
     \<and> (isBoolean b \<and> isObject ap \<and> \<not> instanceofEventParams h ap \<longrightarrow>
          prepareParameters h event = Inr (ap, setProperty h ap ''is_active'' b)
          \<and> (\<forall>a. ap = JRef a \<and> a < length h \<longrightarrow>
                ownProps (setProperty h ap ''is_active'' b) a
                  = assign ''is_active'' b (ownProps h a)
                \<and> fieldOf (setProperty h ap ''is_active'' b) ap ''is_active'' = b
                \<and> (\<forall>a'. a' \<noteq> a \<longrightarrow>
                      ownProps (setProperty h ap ''is_active'' b) a' = ownProps h a')))
     \<and> (notNull propEvent \<longrightarrow>
          forwardEvent rt md s event
            = (case prepareParameters h event of
                 Inl e \<Rightarrow> (Abrupt e, s)
               | Inr (additionalParameters, h') \<Rightarrow>
                   (case JSON_stringify rt h' additionalParameters of
                      Inl e \<Rightarrow> (Abrupt e, s\<lparr>store := h'\<rparr>)
                    | Inr context' \<Rightarrow>
                        (Normal JUndefined,
                         sendEvent rt (s\<lparr>store := h'\<rparr>) propEvent context'))))"
proof -
  note get = getProperty_fieldOf[OF assms(1)]
  have p1: "\<not> isBoolean b \<longrightarrow>
        prepareParameters h event
          = Inr (if instanceofEventParams h ap then JUndefined else ap, h)"
    by (simp add: prepareParameters_def andThen_def get assms(3,4) Let_def)
  have p2: "isBoolean b \<and> (\<not> isObject ap \<or> instanceofEventParams h ap) \<longrightarrow>
          prepareParameters h event
            = Inr (JRef (length h),
                   h @ [\<lparr>instanceOfEventParams = False, props = [(''is_active'', b)]\<rparr>])"
  proof
    assume c: "isBoolean b \<and> (\<not> isObject ap \<or> instanceofEventParams h ap)"
    then have again: "fieldOf (h @ [\<lparr>instanceOfEventParams = False, props = []\<rparr>]) event
        ''isFromUserAction'' = b"
      using fieldOf_append[of h event "''isFromUserAction''"] assms(4) by simp
    have obj: "\<not> isObject (if instanceofEventParams h ap then JUndefined else ap)"
      using c by (auto simp: isObject_def)
    from c show "prepareParameters h event
            = Inr (JRef (length h),
                   h @ [\<lparr>instanceOfEventParams = False, props = [(''is_active'', b)]\<rparr>])"
      unfolding prepareParameters_def andThen_def get Let_def
      using obj again
      by (simp add: assms(3)[symmetric] assms(4)[symmetric] newObject_def get
          setProperty_newObject)
  qed
  have p3: "isBoolean b \<and> isObject ap \<and> \<not> instanceofEventParams h ap \<longrightarrow>
          prepareParameters h event = Inr (ap, setProperty h ap ''is_active'' b)"
    using prepareParameters_assigns[OF assms(1), of h] by (simp add: assms(3,4))
  have p3': "\<forall>a. ap = JRef a \<and> a < length h \<longrightarrow>
                ownProps (setProperty h ap ''is_active'' b) a
                  = assign ''is_active'' b (ownProps h a)
                \<and> fieldOf (setProperty h ap ''is_active'' b) ap ''is_active'' = b
                \<and> (\<forall>a'. a' \<noteq> a \<longrightarrow>
                      ownProps (setProperty h ap ''is_active'' b) a' = ownProps h a')"
    by (auto simp: ownProps_setProperty ownProps_setProperty_other fieldOf_def getProperty_def
        map_of_assign)
  have p4: "notNull propEvent \<longrightarrow>
          forwardEvent rt md s event
            = (case prepareParameters h event of
                 Inl e \<Rightarrow> (Abrupt e, s)
               | Inr (additionalParameters, h') \<Rightarrow>
                   (case JSON_stringify rt h' additionalParameters of
                      Inl e \<Rightarrow> (Abrupt e, s\<lparr>store := h'\<rparr>)
                    | Inr context' \<Rightarrow>
                        (Normal JUndefined,
                         sendEvent rt (s\<lparr>store := h'\<rparr>) propEvent context')))"
    by (simp add: forwardEvent_def orThrow_def get assms(2,5) Let_def
        split: sum.splits prod.splits)
  from p1 p2 p3 p3' p4 show ?thesis by blast
qed


theorem forwarded_parameters_witness:
  "notNull (JRef 0)
   \<and> fieldOf (store exampleServer) (JRef 0) ''additionalParameters'' = JRef 1
   \<and> fieldOf (store exampleServer) (JRef 0) ''isFromUserAction'' = JBool True
   \<and> prepareParameters (store exampleServer) (JRef 0)
       = Inr (JRef 1, setProperty (store exampleServer) (JRef 1) ''is_active'' (JBool True))
   \<and> fieldOf (setProperty (store exampleServer) (JRef 1) ''is_active'' (JBool True)) (JRef 1)
        ''is_active'' = JBool True
   \<and> instanceofEventParams (store exampleServer) (JRef 8)
   \<and> prepareParameters (store exampleServer) (JRef 7) = Inr (JUndefined, store exampleServer)"
proof -
  have n: "notNull (JRef 0)" "notNull (JRef 7)" by (simp_all add: notNull_def)
  have ap: "fieldOf (store exampleServer) (JRef 0) ''additionalParameters'' = JRef 1"
    and b: "fieldOf (store exampleServer) (JRef 0) ''isFromUserAction'' = JBool True"
    and ap7: "fieldOf (store exampleServer) (JRef 7) ''additionalParameters'' = JRef 8"
    and b7: "fieldOf (store exampleServer) (JRef 7) ''isFromUserAction'' = JUndefined"
    by (simp_all add: example_store_simps)
  have len: "1 < length (store exampleServer)" by (simp add: example_store_simps)
  have plain: "isBoolean (JBool True) \<and> isObject (JRef 1)
      \<and> \<not> instanceofEventParams (store exampleServer) (JRef 1)"
    by (simp add: isBoolean_def isObject_def instanceofEventParams_def example_store_simps)
  have internal: "instanceofEventParams (store exampleServer) (JRef 8)"
    by (simp add: instanceofEventParams_def example_store_simps)
  have nb: "\<not> isBoolean JUndefined" by (simp add: isBoolean_def)
  note r0 = forwarded_parameters[OF n(1) refl refl refl refl, of exampleServer exampleModules
      exampleRuntime, unfolded ap b]
  note r7 = forwarded_parameters[OF n(2) refl refl refl refl, of exampleServer exampleModules
      exampleRuntime, unfolded ap7 b7]
  from r0 plain len
  have 1: "prepareParameters (store exampleServer) (JRef 0)
       = Inr (JRef 1, setProperty (store exampleServer) (JRef 1) ''is_active'' (JBool True))"
    and 2: "fieldOf (setProperty (store exampleServer) (JRef 1) ''is_active'' (JBool True))
        (JRef 1) ''is_active'' = JBool True"
    by blast+
  from r7 nb internal
  have 3: "prepareParameters (store exampleServer) (JRef 7) = Inr (JUndefined, store exampleServer)"
    by simp
  from n(1) ap b 1 2 internal 3 show ?thesis by blast
qed

text \<open>
  Claim C8 as stated fails: no copy is made. The event at address 0 is forwarded with the
  flag on; its \<open>additionalParameters\<close> is the object at address 1, which holds only \<open>k\<close>
  before the call and holds \<open>is_active\<close> as well after it.
\<close>

theorem caller_parameters_modified_counterexample:
  "fieldOf (store exampleServer) (JRef 0) ''additionalParameters'' = JRef 1
   \<and> ownProps (store exampleServer) 1 = [(''k'', JStr ''v'')]
   \<and> fst (handleClientEvent exampleRuntime exampleModules exampleServer (JRef 0))
       = Normal JUndefined
   \<and> ownProps (store (snd (handleClientEvent exampleRuntime exampleModules exampleServer
                              (JRef 0)))) 1
       = [(''k'', JStr ''v''), (''is_active'', JBool True)]"
proof -
  let ?h' = "setProperty exampleHeap (JRef 1) ''is_active'' (JBool True)"
  have f: "fieldOf exampleHeap (JRef 0) ''additionalParameters'' = JRef 1"
    "fieldOf exampleHeap (JRef 0) ''isFromUserAction'' = JBool True"
    by (simp_all add: example_store_simps)
  have "\<not> instanceofEventParams exampleHeap (JRef 1)"
    by (simp add: instanceofEventParams_def exampleHeap_def)
  with prepareParameters_assigns[of "JRef 0" exampleHeap, unfolded f]
  have prep: "prepareParameters exampleHeap (JRef 0) = Inr (JRef 1, ?h')"
    by (simp add: notNull_def isBoolean_def isObject_def)
  have t: "getProperty exampleHeap (JRef 0) ''eventType'' = Inr (JNum 1)"
    "getProperty exampleHeap (JRef 0) ''eventOriginator'' = Inr (JNum 1)"
    by (simp_all add: getProperty_def ownProps_def exampleHeap_def)
  have run: "handleClientEvent exampleRuntime exampleModules exampleServer (JRef 0)
      = (Normal JUndefined,
         sendEvent exampleRuntime (exampleServer\<lparr>store := ?h'\<rparr>) (JStr ''paywall'') (JStr ''{}''))"
    by (simp add: handleClientEvent_def processEvent_def forwardEvent_def orThrow_def prep t
        exampleServer_def exampleModules_def exampleRuntime_def enumMember_def notNull_def)
  from sendEvent_report[of exampleRuntime "exampleServer\<lparr>store := ?h'\<rparr>" "JStr ''paywall''"
      "JStr ''{}''"]
  have st: "store (sendEvent exampleRuntime (exampleServer\<lparr>store := ?h'\<rparr>) (JStr ''paywall'')
      (JStr ''{}'')) = ?h'"
    by auto
  have after: "ownProps ?h' 1 = [(''k'', JStr ''v''), (''is_active'', JBool True)]"
    by (simp add: setProperty_def ownProps_def exampleHeap_def)
  have before: "fieldOf (store exampleServer) (JRef 0) ''additionalParameters'' = JRef 1"
    "ownProps (store exampleServer) 1 = [(''k'', JStr ''v'')]"
    by (simp_all add: example_store_simps)
  have res: "store (snd (handleClientEvent exampleRuntime exampleModules exampleServer (JRef 0)))
      = ?h'"
    by (simp only: run snd_conv st)
  have c: "fst (handleClientEvent exampleRuntime exampleModules exampleServer (JRef 0))
      = Normal JUndefined"
    by (simp only: run fst_conv)
  show ?thesis unfolding res by (intro conjI before after c)
qed

end
